theory Spec2Isabelle
  imports Main
begin

section \<open>Data model (app/models.py)\<close>

text \<open>
  Primary keys are UUIDs; only their equality is ever used, so they are natural
  numbers here. Roles, permissions, e-mail addresses, tokens and wrapped keys are the
  strings the source stores. Timestamps are integers (seconds); a nullable column is an
  option. Only the columns that the authorization and key-custody code reads or writes
  are kept.
\<close>

type_synonym uuid = nat
type_synonym datetime = int

record User =
  u_id :: uuid
  u_email :: string

record Organization =
  org_id :: uuid
  org_name :: string
  org_created_by :: uuid
  org_deleted_at :: "datetime option"

record OrganizationMember =
  m_organization_id :: uuid
  m_user_id :: uuid
  m_role :: string
  m_wrapped_org_key :: string
  m_invited_by :: "uuid option"

record Account =
  acc_id :: uuid
  acc_user_id :: uuid
  acc_organization_id :: "uuid option"
  acc_default_permission :: string
  acc_encrypted_dek :: "string option"
  acc_deleted_at :: "datetime option"

record AccountPermission =
  ap_account_id :: uuid
  ap_user_id :: uuid
  ap_permission :: string

record OrganizationInvitation =
  inv_organization_id :: uuid
  inv_email :: string
  inv_role :: string
  inv_wrapped_org_key :: string
  inv_invited_by :: uuid
  inv_token :: string
  inv_expires_at :: datetime
  inv_created_at :: datetime
  inv_accepted_at :: "datetime option"
  inv_rejected_at :: "datetime option"

record AuditLog =
  al_organization_id :: uuid
  al_user_id :: uuid
  al_action :: string
  al_resource_type :: "string option"

text \<open>
  The database: one list of rows per table. A query
  \<^verbatim>\<open>db.query(T).filter(p).first()\<close> is \<^term>\<open>find p\<close> on the table.
\<close>

record db =
  users :: "User list"
  organizations :: "Organization list"
  members :: "OrganizationMember list"
  accounts :: "Account list"
  account_permissions :: "AccountPermission list"
  invitations :: "OrganizationInvitation list"
  audit_logs :: "AuditLog list"

text \<open>
  Every \<^verbatim>\<open>raise\<close> of the source is one constructor; \<open>status_code\<close> gives the
  HTTP status that the source attaches to it. \<open>StorageError\<close> is an exception of the
  storage layer that no handler catches; the two \<^verbatim>\<open>ValueError\<close>s of
  \<^verbatim>\<open>validate_role_transition\<close> are not caught either, hence their status 500.
\<close>

datatype error =
    OrgNotFound
  | NotAMember
  | InsufficientRole string
  | AccountNotFound
  | AccessDenied
  | NotAMemberOfAccountOrg
  | InsufficientPermission string
  | CannotModifyAnotherOwner
  | AdminsCannotModifyAdmins
  | InsufficientToManage
  | InvitationNotFound
  | AlreadyAccepted
  | AlreadyRejected
  | Expired
  | MemberNotFound
  | CannotRemoveOwner
  | NewOwnerNotMember
  | AlreadyTheOwner
  | UserAlreadyMember
  | ActiveInvitationExists
  | DifferentEmail
  | AlreadyMember
  | ValidationError
  | UseTransferEndpoint
  | OnlyOwnersModifyOwners
  | KeyRotationFailed
  | StorageError

fun status_code :: "error \<Rightarrow> nat" where
  "status_code OrgNotFound = 404"
| "status_code NotAMember = 403"
| "status_code (InsufficientRole r) = 403"
| "status_code AccountNotFound = 404"
| "status_code AccessDenied = 403"
| "status_code NotAMemberOfAccountOrg = 403"
| "status_code (InsufficientPermission p) = 403"
| "status_code CannotModifyAnotherOwner = 403"
| "status_code AdminsCannotModifyAdmins = 403"
| "status_code InsufficientToManage = 403"
| "status_code InvitationNotFound = 404"
| "status_code AlreadyAccepted = 400"
| "status_code AlreadyRejected = 400"
| "status_code Expired = 400"
| "status_code MemberNotFound = 404"
| "status_code CannotRemoveOwner = 400"
| "status_code NewOwnerNotMember = 404"
| "status_code AlreadyTheOwner = 400"
| "status_code UserAlreadyMember = 400"
| "status_code ActiveInvitationExists = 400"
| "status_code DifferentEmail = 403"
| "status_code AlreadyMember = 400"
| "status_code ValidationError = 422"
| "status_code UseTransferEndpoint = 500"
| "status_code OnlyOwnersModifyOwners = 500"
| "status_code KeyRotationFailed = 500"
| "status_code StorageError = 500"

section \<open>Role and permission hierarchies (app/utils/permissions.py)\<close>

definition ROLE_HIERARCHY :: "(string \<times> int) list" where
  "ROLE_HIERARCHY = [(''owner'', 4), (''admin'', 3), (''member'', 2), (''viewer'', 1)]"

definition PERMISSION_HIERARCHY :: "(string \<times> int) list" where
  "PERMISSION_HIERARCHY = [(''full'', 3), (''edit'', 2), (''view'', 1)]"

text \<open>Python's \<^verbatim>\<open>d.get(k, default)\<close>.\<close>

definition dict_get :: "('k \<times> 'v) list \<Rightarrow> 'k \<Rightarrow> 'v \<Rightarrow> 'v" where
  "dict_get d k dflt = (case map_of d k of None \<Rightarrow> dflt | Some v \<Rightarrow> v)"

definition known_roles :: "string list" where
  "known_roles = map fst ROLE_HIERARCHY"

definition known_permissions :: "string list" where
  "known_permissions = map fst PERMISSION_HIERARCHY"

section \<open>Membership registry\<close>

definition get_active_org :: "db \<Rightarrow> uuid \<Rightarrow> Organization option" where
  "get_active_org d oid =
     find (\<lambda>org. org_id org = oid \<and> org_deleted_at org = None) (organizations d)"

definition get_member :: "db \<Rightarrow> uuid \<Rightarrow> uuid \<Rightarrow> OrganizationMember option" where
  "get_member d oid uid =
     find (\<lambda>m. m_organization_id m = oid \<and> m_user_id m = uid) (members d)"

text \<open>
  The comparison of \<^verbatim>\<open>check_org_permission\<close>:
  \<^verbatim>\<open>user_level < required_level\<close>, both levels read with default 0.
\<close>

definition role_insufficient :: "string \<Rightarrow> string \<Rightarrow> bool" where
  "role_insufficient member_role required_role =
     (dict_get ROLE_HIERARCHY member_role 0 < dict_get ROLE_HIERARCHY required_role 0)"

text \<open>
  \<^verbatim>\<open>required_role\<close> is an optional string; \<^verbatim>\<open>if required_role:\<close> is false for
  \<^verbatim>\<open>None\<close> and for the empty string.
\<close>

definition check_org_permission ::
  "db \<Rightarrow> User \<Rightarrow> uuid \<Rightarrow> string option \<Rightarrow> error + OrganizationMember" where
  "check_org_permission d user oid required_role =
     (case get_active_org d oid of
        None \<Rightarrow> Inl OrgNotFound
      | Some org \<Rightarrow>
          (case get_member d oid (u_id user) of
             None \<Rightarrow> Inl NotAMember
           | Some member \<Rightarrow>
               (case required_role of
                  None \<Rightarrow> Inr member
                | Some r \<Rightarrow>
                    if r \<noteq> [] \<and> role_insufficient (m_role member) r
                    then Inl (InsufficientRole r)
                    else Inr member)))"

definition check_org_owner :: "db \<Rightarrow> User \<Rightarrow> uuid \<Rightarrow> error + OrganizationMember" where
  "check_org_owner d user oid = check_org_permission d user oid (Some ''owner'')"

definition check_org_admin :: "db \<Rightarrow> User \<Rightarrow> uuid \<Rightarrow> error + OrganizationMember" where
  "check_org_admin d user oid = check_org_permission d user oid (Some ''admin'')"

definition can_manage_member :: "OrganizationMember \<Rightarrow> OrganizationMember \<Rightarrow> error + bool" where
  "can_manage_member manager target =
     (if m_role manager = ''owner'' then
        (if m_role target = ''owner'' \<and> m_user_id manager \<noteq> m_user_id target
         then Inl CannotModifyAnotherOwner
         else Inr True)
      else if m_role manager = ''admin'' then
        (if m_role target \<in> set [''owner'', ''admin'']
         then Inl AdminsCannotModifyAdmins
         else Inr True)
      else Inl InsufficientToManage)"

definition validate_role_transition :: "string \<Rightarrow> string \<Rightarrow> string \<Rightarrow> error + bool" where
  "validate_role_transition current_role new_role actor_role =
     (if new_role = ''owner'' then Inl UseTransferEndpoint
      else if current_role = ''owner'' \<and> actor_role \<noteq> ''owner'' then Inl OnlyOwnersModifyOwners
      else Inr True)"

section \<open>Account access resolver\<close>

text \<open>
  \<^verbatim>\<open>if not account.organization_id\<close> holds exactly for a personal account (the column
  is null); \<^verbatim>\<open>if account.default_permission:\<close> holds exactly for a non-empty string.
\<close>

definition get_account_permission :: "db \<Rightarrow> uuid \<Rightarrow> uuid \<Rightarrow> AccountPermission option" where
  "get_account_permission d aid uid =
     find (\<lambda>p. ap_account_id p = aid \<and> ap_user_id p = uid) (account_permissions d)"

definition check_account_permission :: "db \<Rightarrow> User \<Rightarrow> uuid \<Rightarrow> string \<Rightarrow> error + bool" where
  "check_account_permission d user account_id required_permission =
     (case find (\<lambda>a. acc_id a = account_id \<and> acc_deleted_at a = None) (accounts d) of
        None \<Rightarrow> Inl AccountNotFound
      | Some account \<Rightarrow>
          (case acc_organization_id account of
             None \<Rightarrow>
               if acc_user_id account \<noteq> u_id user then Inl AccessDenied else Inr True
           | Some oid \<Rightarrow>
               (case get_member d oid (u_id user) of
                  None \<Rightarrow> Inl NotAMemberOfAccountOrg
                | Some member \<Rightarrow>
                    if m_role member \<in> set [''owner'', ''admin''] then Inr True
                    else if (case get_account_permission d account_id (u_id user) of
                               None \<Rightarrow> False
                             | Some account_perm \<Rightarrow>
                                 dict_get PERMISSION_HIERARCHY (ap_permission account_perm) 0
                                   \<ge> dict_get PERMISSION_HIERARCHY required_permission 0)
                    then Inr True
                    else if acc_default_permission account \<noteq> [] \<and>
                            dict_get PERMISSION_HIERARCHY (acc_default_permission account) 0
                              \<ge> dict_get PERMISSION_HIERARCHY required_permission 0
                    then Inr True
                    else if m_role member = ''viewer'' \<and> required_permission = ''view''
                    then Inr True
                    else Inl (InsufficientPermission required_permission))))"

section \<open>Storage faults and the audit recorder\<close>

text \<open>
  Every operation below is a request handler: it reads the committed database, and what
  it returns here is its outcome together with the database as committed when the
  request ends. The storage layer may raise; \<open>storage_fault\<close> says where it does in
  the request at hand: while the handler applies its writes, at the handler's own
  \<^verbatim>\<open>db.commit()\<close>, or at the commit inside \<^verbatim>\<open>log_audit\<close>. Writes that were
  not committed are lost (the session is rolled back or closed).

  Rows reached through a foreign key (the user of a membership, the organization and the
  inviter of an invitation) exist, as the schema's foreign keys guarantee; the source
  dereferences them without a check. The clock readings of one request are one instant
  \<open>now\<close>. A fresh primary key (\<^verbatim>\<open>uuid4\<close>) is an argument; a value that collides
  with a stored one violates the column's uniqueness constraint, which is a storage
  error.

  The tables are those of the migrated database (\<^verbatim>\<open>alembic upgrade head\<close>, the
  installation path of setup.py). Migration 004 declares, beyond what app/models.py
  repeats (unique user e-mail, unique invitation token), the constraint
  \<^verbatim>\<open>uq_org_invitation\<close>: one invitation row per (organization, e-mail), whatever its
  state; \<^verbatim>\<open>create_invitation\<close> below runs into it. It also declares one membership
  per (organization, user); every handler below that inserts a membership row has
  looked for an existing one first, or inserts into an organization it has just created.
\<close>

datatype storage_fault = NoFault | FaultInUpdates | FaultAtCommit | FaultAtAudit

definition commit_fails :: "storage_fault \<Rightarrow> bool" where
  "commit_fails fault = (fault = FaultInUpdates \<or> fault = FaultAtCommit)"

text \<open>\<^verbatim>\<open>log_audit\<close>: add the entry and commit, a commit of its own.\<close>

definition log_audit :: "storage_fault \<Rightarrow> db \<Rightarrow> AuditLog \<Rightarrow> (error + AuditLog) \<times> db" where
  "log_audit fault d audit =
     (if fault = FaultAtAudit then (Inl StorageError, d)
      else (Inr audit, d\<lparr>audit_logs := audit_logs d @ [audit]\<rparr>))"

text \<open>An attribute assignment on the row a query returned, and \<^verbatim>\<open>db.delete\<close> of it.\<close>

fun update_first :: "('a \<Rightarrow> bool) \<Rightarrow> ('a \<Rightarrow> 'a) \<Rightarrow> 'a list \<Rightarrow> 'a list" where
  "update_first P f [] = []"
| "update_first P f (x # xs) = (if P x then f x # xs else x # update_first P f xs)"

fun delete_first :: "('a \<Rightarrow> bool) \<Rightarrow> 'a list \<Rightarrow> 'a list" where
  "delete_first P [] = []"
| "delete_first P (x # xs) = (if P x then xs else x # delete_first P xs)"

definition is_member_of :: "uuid \<Rightarrow> uuid \<Rightarrow> OrganizationMember \<Rightarrow> bool" where
  "is_member_of oid uid m = (m_organization_id m = oid \<and> m_user_id m = uid)"

section \<open>Organization routes (app/routers/organizations.py)\<close>

text \<open>
  \<^verbatim>\<open>RoleEnum\<close> of app/schemas.py, and the validator \<^verbatim>\<open>role_not_owner\<close> that
  both \<^verbatim>\<open>InvitationCreate\<close> and \<^verbatim>\<open>MemberRoleUpdate\<close> attach to their role field.
\<close>

datatype RoleEnum = OWNER | ADMIN | MEMBER | VIEWER

fun role_value :: "RoleEnum \<Rightarrow> string" where
  "role_value OWNER = ''owner''"
| "role_value ADMIN = ''admin''"
| "role_value MEMBER = ''member''"
| "role_value VIEWER = ''viewer''"

definition role_not_owner :: "RoleEnum \<Rightarrow> error + RoleEnum" where
  "role_not_owner v = (if v = OWNER then Inl ValidationError else Inr v)"

text \<open>
  \<^verbatim>\<open>OrganizationCreate\<close> of app/schemas.py: name and wrapped key have
  \<^verbatim>\<open>min_length=1\<close>, and the validator \<^verbatim>\<open>name_not_empty\<close> refuses a name that
  \<^verbatim>\<open>strip()\<close> empties and passes the stripped name on. A refused body is the 422
  that precedes the handler. \<^verbatim>\<open>str.strip\<close> is modelled on the white space of ASCII
  (9 to 13, 28 to 32); the upper bounds on the lengths are not modelled.
\<close>

definition isspace :: "char \<Rightarrow> bool" where
  "isspace c = (of_char c \<in> set [9, 10, 11, 12, 13, 28, 29, 30, 31, 32 :: nat])"

definition strip :: "string \<Rightarrow> string" where
  "strip v = rev (dropWhile isspace (rev (dropWhile isspace v)))"

definition name_not_empty :: "string \<Rightarrow> error + string" where
  "name_not_empty v = (if strip v = [] then Inl ValidationError else Inr (strip v))"

definition create_organization ::
  "storage_fault \<Rightarrow> uuid \<Rightarrow> string \<Rightarrow> string \<Rightarrow> User \<Rightarrow> db \<Rightarrow> (error + Organization) \<times> db" where
  "create_organization fault new_id org_data_name wrapped_org_key current_user d =
     (case (if org_data_name = [] \<or> wrapped_org_key = [] then Inl ValidationError
            else name_not_empty org_data_name) of
        Inl e \<Rightarrow> (Inl e, d)
      | Inr name \<Rightarrow>
      if new_id \<in> set (map org_id (organizations d)) \<or> commit_fails fault
      then (Inl StorageError, d)
      else
        let new_org = \<lparr>org_id = new_id, org_name = name,
                       org_created_by = u_id current_user, org_deleted_at = None\<rparr>;
            creator_member = \<lparr>m_organization_id = new_id, m_user_id = u_id current_user,
                              m_role = ''owner'', m_wrapped_org_key = wrapped_org_key,
                              m_invited_by = Some (u_id current_user)\<rparr>;
            d1 = d\<lparr>organizations := organizations d @ [new_org],
                   members := members d @ [creator_member]\<rparr>
        in (case log_audit fault d1
                  \<lparr>al_organization_id = new_id, al_user_id = u_id current_user,
                   al_action = ''org_created'', al_resource_type = Some ''organization''\<rparr> of
             (Inl e, d2) \<Rightarrow> (Inl e, d2)
           | (Inr _, d2) \<Rightarrow> (Inr new_org, d2)))"

definition update_member_role ::
  "storage_fault \<Rightarrow> uuid \<Rightarrow> uuid \<Rightarrow> RoleEnum \<Rightarrow> User \<Rightarrow> db
     \<Rightarrow> (error + OrganizationMember) \<times> db" where
  "update_member_role fault oid uid role_data current_user d =
     (case role_not_owner role_data of
        Inl e \<Rightarrow> (Inl e, d)
      | Inr role \<Rightarrow>
     (case check_org_admin d current_user oid of
        Inl e \<Rightarrow> (Inl e, d)
      | Inr manager \<Rightarrow>
     (case get_member d oid uid of
        None \<Rightarrow> (Inl MemberNotFound, d)
      | Some target \<Rightarrow>
     (case can_manage_member manager target of
        Inl e \<Rightarrow> (Inl e, d)
      | Inr _ \<Rightarrow>
     (case validate_role_transition (m_role target) (role_value role) (m_role manager) of
        Inl e \<Rightarrow> (Inl e, d)
      | Inr _ \<Rightarrow>
          if commit_fails fault then (Inl StorageError, d)
          else
            let d1 = d\<lparr>members := update_first (is_member_of oid uid)
                                      (\<lambda>m. m\<lparr>m_role := role_value role\<rparr>) (members d)\<rparr>
            in (case log_audit fault d1
                      \<lparr>al_organization_id = oid, al_user_id = u_id current_user,
                       al_action = ''member_role_changed'',
                       al_resource_type = Some ''organization_member''\<rparr> of
                 (Inl e, d2) \<Rightarrow> (Inl e, d2)
               | (Inr _, d2) \<Rightarrow> (Inr (target\<lparr>m_role := role_value role\<rparr>), d2)))))))"

definition remove_member ::
  "storage_fault \<Rightarrow> uuid \<Rightarrow> uuid \<Rightarrow> User \<Rightarrow> db \<Rightarrow> (error + unit) \<times> db" where
  "remove_member fault oid uid current_user d =
     (case check_org_admin d current_user oid of
        Inl e \<Rightarrow> (Inl e, d)
      | Inr manager \<Rightarrow>
          (case get_member d oid uid of
             None \<Rightarrow> (Inl MemberNotFound, d)
           | Some target \<Rightarrow>
               if m_role target = ''owner'' then (Inl CannotRemoveOwner, d)
               else
                 (case can_manage_member manager target of
                    Inl e \<Rightarrow> (Inl e, d)
                  | Inr _ \<Rightarrow>
                      if commit_fails fault then (Inl StorageError, d)
                      else
                        let d1 = d\<lparr>members := delete_first (is_member_of oid uid) (members d)\<rparr>
                        in (case log_audit fault d1
                                  \<lparr>al_organization_id = oid, al_user_id = u_id current_user,
                                   al_action = ''member_removed'',
                                   al_resource_type = Some ''organization_member''\<rparr> of
                             (Inl e, d2) \<Rightarrow> (Inl e, d2)
                           | (Inr _, d2) \<Rightarrow> (Inr (), d2)))))"

definition transfer_ownership ::
  "storage_fault \<Rightarrow> uuid \<Rightarrow> uuid \<Rightarrow> User \<Rightarrow> db \<Rightarrow> (error + OrganizationMember) \<times> db" where
  "transfer_ownership fault oid new_owner_id current_user d =
     (case check_org_owner d current_user oid of
        Inl e \<Rightarrow> (Inl e, d)
      | Inr current_owner \<Rightarrow>
          (case get_member d oid new_owner_id of
             None \<Rightarrow> (Inl NewOwnerNotMember, d)
           | Some new_owner \<Rightarrow>
               if m_user_id new_owner = u_id current_user then (Inl AlreadyTheOwner, d)
               else if commit_fails fault then (Inl StorageError, d)
               else
                 let ms1 = update_first (is_member_of oid (u_id current_user))
                             (\<lambda>m. m\<lparr>m_role := ''admin''\<rparr>) (members d);
                     ms2 = update_first (is_member_of oid new_owner_id)
                             (\<lambda>m. m\<lparr>m_role := ''owner''\<rparr>) ms1;
                     d1 = d\<lparr>members := ms2\<rparr>
                 in (case log_audit fault d1
                           \<lparr>al_organization_id = oid, al_user_id = u_id current_user,
                            al_action = ''ownership_transferred'',
                            al_resource_type = Some ''organization''\<rparr> of
                      (Inl e, d2) \<Rightarrow> (Inl e, d2)
                    | (Inr _, d2) \<Rightarrow> (Inr (new_owner\<lparr>m_role := ''owner''\<rparr>), d2))))"

text \<open>
  Key rotation. The two \<^verbatim>\<open>for\<close> loops carry the table and the running count.
  \<^verbatim>\<open>member_keys\<close> is a list of typed entries (\<^verbatim>\<open>user_id: UUID\<close>).
  \<^verbatim>\<open>account_deks\<close> is an untyped dict, read in the order of its items: its keys
  are whatever strings the client sent. A key is either the text of a UUID or it is not;
  the query that compares a key of the second kind with the UUID column
  \<^verbatim>\<open>Account.id\<close> raises, which ends the loop in the handler's \<^verbatim>\<open>except\<close>.
\<close>

datatype dek_key = AccountId uuid | NotAUuid string

record MemberKeyRotation =
  mk_user_id :: uuid
  mk_wrapped_org_key :: string

record KeyRotationRequest =
  member_keys :: "MemberKeyRotation list"
  account_deks :: "(dek_key \<times> string) list"

record KeyRotationResponse =
  kr_accounts_updated :: nat
  kr_members_updated :: nat

definition is_org_account :: "uuid \<Rightarrow> uuid \<Rightarrow> Account \<Rightarrow> bool" where
  "is_org_account oid aid a =
     (acc_id a = aid \<and> acc_organization_id a = Some oid \<and> acc_deleted_at a = None)"

fun rotate_member_keys ::
  "uuid \<Rightarrow> MemberKeyRotation list \<Rightarrow> OrganizationMember list \<times> nat
     \<Rightarrow> OrganizationMember list \<times> nat" where
  "rotate_member_keys oid [] (ms, members_updated) = (ms, members_updated)"
| "rotate_member_keys oid (member_key_data # rest) (ms, members_updated) =
     (case find (is_member_of oid (mk_user_id member_key_data)) ms of
        None \<Rightarrow> rotate_member_keys oid rest (ms, members_updated)
      | Some member \<Rightarrow>
          rotate_member_keys oid rest
            (update_first (is_member_of oid (mk_user_id member_key_data))
               (\<lambda>m. m\<lparr>m_wrapped_org_key := mk_wrapped_org_key member_key_data\<rparr>) ms,
             members_updated + 1))"

fun rotate_account_deks ::
  "uuid \<Rightarrow> (dek_key \<times> string) list \<Rightarrow> Account list \<times> nat
     \<Rightarrow> error + Account list \<times> nat" where
  "rotate_account_deks oid [] (accs, accounts_updated) = Inr (accs, accounts_updated)"
| "rotate_account_deks oid ((NotAUuid account_id_str, new_wrapped_dek) # rest)
     (accs, accounts_updated) = Inl StorageError"
| "rotate_account_deks oid ((AccountId account_id, new_wrapped_dek) # rest)
     (accs, accounts_updated) =
     (case find (is_org_account oid account_id) accs of
        None \<Rightarrow> rotate_account_deks oid rest (accs, accounts_updated)
      | Some account \<Rightarrow>
          rotate_account_deks oid rest
            (update_first (is_org_account oid account_id)
               (\<lambda>a. a\<lparr>acc_encrypted_dek := Some new_wrapped_dek\<rparr>) accs,
             accounts_updated + 1))"

text \<open>
  The common shape of the two loops, for the proofs: for each (key, value) in turn, the
  first row that matches the key, if there is one, takes the value and is counted.
\<close>

fun apply_updates ::
  "('k \<Rightarrow> 'a \<Rightarrow> bool) \<Rightarrow> ('v \<Rightarrow> 'a \<Rightarrow> 'a) \<Rightarrow> ('k \<times> 'v) list \<Rightarrow> 'a list \<times> nat
     \<Rightarrow> 'a list \<times> nat" where
  "apply_updates Q st [] (xs, n) = (xs, n)"
| "apply_updates Q st ((k, v) # rest) (xs, n) =
     (case find (Q k) xs of
        None \<Rightarrow> apply_updates Q st rest (xs, n)
      | Some x \<Rightarrow> apply_updates Q st rest (update_first (Q k) (st v) xs, n + 1))"

text \<open>
  Everything from the loops to the audit entry is inside the handler's
  \<^verbatim>\<open>try\<close>; its \<^verbatim>\<open>except\<close> rolls back and raises the 500 "Key rotation failed".
\<close>

definition rotate_organization_keys ::
  "storage_fault \<Rightarrow> uuid \<Rightarrow> KeyRotationRequest \<Rightarrow> User \<Rightarrow> db
     \<Rightarrow> (error + KeyRotationResponse) \<times> db" where
  "rotate_organization_keys fault oid rotation_data current_user d =
     (case check_org_owner d current_user oid of
        Inl e \<Rightarrow> (Inl e, d)
      | Inr owner \<Rightarrow>
          (case get_active_org d oid of
             None \<Rightarrow> (Inl OrgNotFound, d)
           | Some org \<Rightarrow>
               if commit_fails fault then (Inl KeyRotationFailed, d)
               else
                 (case rotate_account_deks oid (account_deks rotation_data) (accounts d, 0) of
                    Inl e \<Rightarrow> (Inl KeyRotationFailed, d)
                  | Inr ares \<Rightarrow>
                      (let mres = rotate_member_keys oid (member_keys rotation_data)
                                    (members d, 0);
                           d1 = d\<lparr>members := fst mres, accounts := fst ares\<rparr>
                       in (case log_audit fault d1
                                 \<lparr>al_organization_id = oid, al_user_id = u_id current_user,
                                  al_action = ''keys_rotated'',
                                  al_resource_type = Some ''organization''\<rparr> of
                            (Inl e, d2) \<Rightarrow> (Inl KeyRotationFailed, d2)
                          | (Inr _, d2) \<Rightarrow>
                              (Inr \<lparr>kr_accounts_updated = snd ares,
                                    kr_members_updated = snd mres\<rparr>, d2))))))"

section \<open>Invitation lifecycle (app/routers/invitations.py)\<close>

text \<open>
  The request body of \<^verbatim>\<open>create_invitation\<close> (\<^verbatim>\<open>InvitationCreate\<close> of
  app/schemas.py). Its e-mail is an \<^verbatim>\<open>EmailStr\<close>: the check and the normalisation
  are pydantic's and the email-validator library's, not the repository's, so they are the
  parameter \<open>email_str\<close> (\<open>None\<close> for a refused address, else the address as the
  handler sees it). The wrapped key has \<^verbatim>\<open>min_length=1\<close>, the role goes through
  \<^verbatim>\<open>role_not_owner\<close>. A refused body is the 422 that precedes the handler. The
  optional message is not read by anything modelled here and is left out.
\<close>

record InvitationCreate =
  ic_email :: string
  ic_role :: RoleEnum
  ic_wrapped_org_key :: string

definition timedelta_days :: "int \<Rightarrow> int" where
  "timedelta_days n = n * 86400"

text \<open>
  \<^verbatim>\<open>datetime.utcnow()\<close> is a naive datetime. The columns are
  \<^verbatim>\<open>DateTime(timezone=True)\<close>: a naive value that is stored in, or compared with,
  such a column is read by the database as local time of its session, which lies
  \<open>utc_offset\<close> seconds east of UTC. The stored timestamps of this model are instants.
\<close>

definition as_timestamptz :: "int \<Rightarrow> datetime \<Rightarrow> datetime" where
  "as_timestamptz utc_offset naive = naive - utc_offset"

definition is_active_invitation :: "uuid \<Rightarrow> string \<Rightarrow> datetime \<Rightarrow> OrganizationInvitation \<Rightarrow> bool" where
  "is_active_invitation oid email now i =
     (inv_organization_id i = oid \<and> inv_email i = email \<and> inv_accepted_at i = None \<and>
      inv_rejected_at i = None \<and> inv_expires_at i > now)"

text \<open>
  \<^verbatim>\<open>secrets.token_urlsafe(32)\<close>: 32 bytes from the operating system's random
  source, in the URL-safe base64 alphabet, the padding stripped. The random source is the
  parameter \<open>urandom\<close>, its \<open>i\<close>-th byte being \<open>urandom i mod 256\<close>.
\<close>

definition urlsafe_alphabet :: string where
  "urlsafe_alphabet = ''ABCDEFGHIJKLMNOPQRSTUVWXYZabcdefghijklmnopqrstuvwxyz0123456789-_''"

definition b64char :: "nat \<Rightarrow> char" where
  "b64char n = urlsafe_alphabet ! (n mod 64)"

fun urlsafe_b64encode :: "nat list \<Rightarrow> string" where
  "urlsafe_b64encode [] = []"
| "urlsafe_b64encode [a] = [b64char (a div 4), b64char ((a mod 4) * 16)]"
| "urlsafe_b64encode [a, b] =
     [b64char (a div 4), b64char ((a mod 4) * 16 + b div 16), b64char ((b mod 16) * 4)]"
| "urlsafe_b64encode (a # b # c # rest) =
     [b64char (a div 4), b64char ((a mod 4) * 16 + b div 16),
      b64char ((b mod 16) * 4 + c div 64), b64char (c mod 64)] @ urlsafe_b64encode rest"

definition token_bytes :: "(nat \<Rightarrow> nat) \<Rightarrow> nat \<Rightarrow> nat list" where
  "token_bytes urandom nbytes = map (\<lambda>i. urandom i mod 256) [0..<nbytes]"

definition token_urlsafe :: "(nat \<Rightarrow> nat) \<Rightarrow> nat \<Rightarrow> string" where
  "token_urlsafe urandom nbytes = urlsafe_b64encode (token_bytes urandom nbytes)"

text \<open>
  The membership query of \<^verbatim>\<open>create_invitation\<close> compares \<^verbatim>\<open>user_id\<close> with a
  scalar subquery, the id of the user with the invitee's e-mail; with no such user the
  subquery is null and no row matches.
\<close>

definition existing_member_by_email :: "db \<Rightarrow> uuid \<Rightarrow> string \<Rightarrow> OrganizationMember option" where
  "existing_member_by_email d oid email =
     (case find (\<lambda>u. u_email u = email) (users d) of
        None \<Rightarrow> None
      | Some u \<Rightarrow> get_member d oid (u_id u))"

text \<open>
  The insert of the new invitation fails at \<^verbatim>\<open>db.commit()\<close> when its token is
  already stored (the token column is unique) or when the table holds any row for this
  organization and e-mail (\<^verbatim>\<open>uq_org_invitation\<close>), be it expired, rejected or
  accepted: the handler's own check has only looked for an active one.
\<close>

definition violates_invitation_constraints ::
  "db \<Rightarrow> OrganizationInvitation \<Rightarrow> bool" where
  "violates_invitation_constraints d new_invitation =
     (inv_token new_invitation \<in> set (map inv_token (invitations d)) \<or>
      (inv_organization_id new_invitation, inv_email new_invitation)
        \<in> set (map (\<lambda>i. (inv_organization_id i, inv_email i)) (invitations d)))"

definition create_invitation ::
  "(string \<Rightarrow> string option) \<Rightarrow> (nat \<Rightarrow> nat) \<Rightarrow> int \<Rightarrow> storage_fault \<Rightarrow> datetime \<Rightarrow> uuid
     \<Rightarrow> InvitationCreate \<Rightarrow> User \<Rightarrow> db \<Rightarrow> (error + OrganizationInvitation) \<times> db" where
  "create_invitation email_str urandom utc_offset fault now oid invitation_data current_user d =
     (case email_str (ic_email invitation_data) of
        None \<Rightarrow> (Inl ValidationError, d)
      | Some email \<Rightarrow>
     if ic_wrapped_org_key invitation_data = [] then (Inl ValidationError, d)
     else
     (case role_not_owner (ic_role invitation_data) of
        Inl e \<Rightarrow> (Inl e, d)
      | Inr role \<Rightarrow>
     (case check_org_admin d current_user oid of
        Inl e \<Rightarrow> (Inl e, d)
      | Inr member \<Rightarrow>
     (case get_active_org d oid of
        None \<Rightarrow> (Inl OrgNotFound, d)
      | Some org \<Rightarrow>
     (case existing_member_by_email d oid email of
        Some existing_member \<Rightarrow> (Inl UserAlreadyMember, d)
      | None \<Rightarrow>
     (case find (is_active_invitation oid email (as_timestamptz utc_offset now))
             (invitations d) of
        Some existing_invitation \<Rightarrow> (Inl ActiveInvitationExists, d)
      | None \<Rightarrow>
          (let token = token_urlsafe urandom 32;
               expires_at = now + timedelta_days 7;
               new_invitation =
                  \<lparr>inv_organization_id = oid, inv_email = email,
                   inv_role = role_value role,
                   inv_wrapped_org_key = ic_wrapped_org_key invitation_data,
                   inv_invited_by = u_id current_user, inv_token = token,
                   inv_expires_at = as_timestamptz utc_offset expires_at,
                   inv_created_at = as_timestamptz utc_offset now,
                   inv_accepted_at = None, inv_rejected_at = None\<rparr>
           in if violates_invitation_constraints d new_invitation \<or> commit_fails fault
              then (Inl StorageError, d)
              else
                (let d1 = d\<lparr>invitations := invitations d @ [new_invitation]\<rparr>
                 in (case log_audit fault d1
                           \<lparr>al_organization_id = oid, al_user_id = u_id current_user,
                            al_action = ''member_invited'',
                            al_resource_type = Some ''organization_invitation''\<rparr> of
                      (Inl e, d2) \<Rightarrow> (Inl e, d2)
                    | (Inr _, d2) \<Rightarrow> (Inr new_invitation, d2))))))))))"

definition verify_invitation_token ::
  "db \<Rightarrow> string \<Rightarrow> datetime \<Rightarrow> error + OrganizationInvitation" where
  "verify_invitation_token d token now =
     (case find (\<lambda>i. inv_token i = token) (invitations d) of
        None \<Rightarrow> Inl InvitationNotFound
      | Some invitation \<Rightarrow>
          if inv_accepted_at invitation \<noteq> None then Inl AlreadyAccepted
          else if inv_rejected_at invitation \<noteq> None then Inl AlreadyRejected
          else if inv_expires_at invitation < now then Inl Expired
          else Inr invitation)"

text \<open>
  \<^verbatim>\<open>InvitationAccept.wrapped_org_key\<close> has \<^verbatim>\<open>min_length=1\<close>: an empty key is
  refused by the schema before the handler runs.
\<close>

definition accept_invitation ::
  "storage_fault \<Rightarrow> datetime \<Rightarrow> string \<Rightarrow> string \<Rightarrow> User \<Rightarrow> db
     \<Rightarrow> (error + OrganizationInvitation) \<times> db" where
  "accept_invitation fault now token wrapped_org_key current_user d =
     (if wrapped_org_key = [] then (Inl ValidationError, d)
      else
     (case verify_invitation_token d token now of
        Inl e \<Rightarrow> (Inl e, d)
      | Inr invitation \<Rightarrow>
          if inv_email invitation \<noteq> u_email current_user then (Inl DifferentEmail, d)
          else
            (case get_member d (inv_organization_id invitation) (u_id current_user) of
               Some existing_member \<Rightarrow> (Inl AlreadyMember, d)
             | None \<Rightarrow>
                 if commit_fails fault then (Inl StorageError, d)
                 else
                   let new_member =
                         \<lparr>m_organization_id = inv_organization_id invitation,
                          m_user_id = u_id current_user, m_role = inv_role invitation,
                          m_wrapped_org_key = wrapped_org_key,
                          m_invited_by = Some (inv_invited_by invitation)\<rparr>;
                       d1 = d\<lparr>members := members d @ [new_member],
                              invitations :=
                                update_first (\<lambda>i. inv_token i = token)
                                  (\<lambda>i. i\<lparr>inv_accepted_at := Some now\<rparr>) (invitations d)\<rparr>
                   in (case log_audit fault d1
                             \<lparr>al_organization_id = inv_organization_id invitation,
                              al_user_id = u_id current_user, al_action = ''member_joined'',
                              al_resource_type = Some ''organization_member''\<rparr> of
                        (Inl e, d2) \<Rightarrow> (Inl e, d2)
                      | (Inr _, d2) \<Rightarrow>
                          (Inr (invitation\<lparr>inv_accepted_at := Some now\<rparr>), d2)))))"

definition reject_invitation ::
  "storage_fault \<Rightarrow> datetime \<Rightarrow> string \<Rightarrow> User \<Rightarrow> db
     \<Rightarrow> (error + OrganizationInvitation) \<times> db" where
  "reject_invitation fault now token current_user d =
     (case verify_invitation_token d token now of
        Inl e \<Rightarrow> (Inl e, d)
      | Inr invitation \<Rightarrow>
          if inv_email invitation \<noteq> u_email current_user then (Inl DifferentEmail, d)
          else if commit_fails fault then (Inl StorageError, d)
          else
            let d1 = d\<lparr>invitations :=
                          update_first (\<lambda>i. inv_token i = token)
                            (\<lambda>i. i\<lparr>inv_rejected_at := Some now\<rparr>) (invitations d)\<rparr>
            in (case log_audit fault d1
                      \<lparr>al_organization_id = inv_organization_id invitation,
                       al_user_id = u_id current_user, al_action = ''invitation_rejected'',
                       al_resource_type = Some ''organization_invitation''\<rparr> of
                 (Inl e, d2) \<Rightarrow> (Inl e, d2)
               | (Inr _, d2) \<Rightarrow> (Inr (invitation\<lparr>inv_rejected_at := Some now\<rparr>), d2)))"

section \<open>The single-owner invariant\<close>

text \<open>
  The membership rows of an organization that carry the role owner; the invariant that
  every organization has exactly one; and the foreign key of a membership row.
\<close>

definition owner_rows :: "db \<Rightarrow> uuid \<Rightarrow> OrganizationMember list" where
  "owner_rows d oid =
     filter (\<lambda>m. m_organization_id m = oid \<and> m_role m = ''owner'') (members d)"

definition single_owner :: "db \<Rightarrow> bool" where
  "single_owner d = (\<forall>org\<in>set (organizations d). length (owner_rows d (org_id org)) = 1)"

definition members_in_orgs :: "db \<Rightarrow> bool" where
  "members_in_orgs d =
     (\<forall>m\<in>set (members d). m_organization_id m \<in> set (map org_id (organizations d)))"

text \<open>
  A request to one of the three handlers, with the acting user and the storage fault (if
  any) that strikes while it is served; \<open>serve\<close> runs requests one after the other on
  the committed database.
\<close>

datatype org_request =
    CreateOrganization storage_fault uuid string string User
  | TransferOwnership storage_fault uuid uuid User
  | RemoveMember storage_fault uuid uuid User

fun handle :: "org_request \<Rightarrow> db \<Rightarrow> db" where
  "handle (CreateOrganization fault new_id name wrapped_org_key current_user) d =
     snd (create_organization fault new_id name wrapped_org_key current_user d)"
| "handle (TransferOwnership fault oid new_owner_id current_user) d =
     snd (transfer_ownership fault oid new_owner_id current_user d)"
| "handle (RemoveMember fault oid uid current_user) d =
     snd (remove_member fault oid uid current_user d)"

fun serve :: "org_request list \<Rightarrow> db \<Rightarrow> db" where
  "serve [] d = d"
| "serve (r # rs) d = serve rs (handle r d)"

section \<open>An example state\<close>

text \<open>
  Organization 1 with owner A, member B and viewer D; C is a registered user outside it.
  Account 10 belongs to the organization, account 11 is B's personal account.
\<close>

definition userA :: User where "userA = \<lparr>u_id = 1, u_email = ''a@example.org''\<rparr>"
definition userB :: User where "userB = \<lparr>u_id = 2, u_email = ''b@example.org''\<rparr>"
definition userC :: User where "userC = \<lparr>u_id = 3, u_email = ''c@example.org''\<rparr>"
definition userD :: User where "userD = \<lparr>u_id = 4, u_email = ''d@example.org''\<rparr>"

definition memberA :: OrganizationMember where
  "memberA = \<lparr>m_organization_id = 1, m_user_id = 1, m_role = ''owner'',
              m_wrapped_org_key = ''keyA'', m_invited_by = Some 1\<rparr>"

definition memberB :: OrganizationMember where
  "memberB = \<lparr>m_organization_id = 1, m_user_id = 2, m_role = ''member'',
              m_wrapped_org_key = ''keyB'', m_invited_by = Some 1\<rparr>"

definition memberD :: OrganizationMember where
  "memberD = \<lparr>m_organization_id = 1, m_user_id = 4, m_role = ''viewer'',
              m_wrapped_org_key = ''keyD'', m_invited_by = Some 1\<rparr>"

definition accountX :: Account where
  "accountX = \<lparr>acc_id = 10, acc_user_id = 1, acc_organization_id = Some 1,
               acc_default_permission = ''view'', acc_encrypted_dek = Some ''dekX'',
               acc_deleted_at = None\<rparr>"

definition accountY :: Account where
  "accountY = \<lparr>acc_id = 11, acc_user_id = 2, acc_organization_id = None,
               acc_default_permission = ''view'', acc_encrypted_dek = Some ''dekY'',
               acc_deleted_at = None\<rparr>"

definition db0 :: db where
  "db0 = \<lparr>users = [userA, userB, userC, userD],
          organizations = [\<lparr>org_id = 1, org_name = ''Family'', org_created_by = 1,
                            org_deleted_at = None\<rparr>],
          members = [memberA, memberB, memberD],
          accounts = [accountX, accountY],
          account_permissions = [],
          invitations = [],
          audit_logs = []\<rparr>"

text \<open>
  Three invitations to organization 1: one pending for C, one accepted long ago by B
  (its expiry has passed at time 2000), one rejected by D.
\<close>

definition invP :: OrganizationInvitation where
  "invP = \<lparr>inv_organization_id = 1, inv_email = ''c@example.org'', inv_role = ''member'',
           inv_wrapped_org_key = ''rsaC'', inv_invited_by = 1, inv_token = ''tokP'',
           inv_expires_at = 1000, inv_created_at = 100,
           inv_accepted_at = None, inv_rejected_at = None\<rparr>"

definition invA :: OrganizationInvitation where
  "invA = \<lparr>inv_organization_id = 1, inv_email = ''b@example.org'', inv_role = ''member'',
           inv_wrapped_org_key = ''rsaB'', inv_invited_by = 1, inv_token = ''tokA'',
           inv_expires_at = 900, inv_created_at = 0,
           inv_accepted_at = Some 50, inv_rejected_at = None\<rparr>"

definition invR :: OrganizationInvitation where
  "invR = \<lparr>inv_organization_id = 1, inv_email = ''d@example.org'', inv_role = ''admin'',
           inv_wrapped_org_key = ''rsaD'', inv_invited_by = 1, inv_token = ''tokR'',
           inv_expires_at = 900, inv_created_at = 0,
           inv_accepted_at = None, inv_rejected_at = Some 60\<rparr>"

definition db1 :: db where
  "db1 = db0\<lparr>invitations := [invP, invA, invR]\<rparr>"

lemmas example_defs =
  userA_def userB_def userC_def userD_def memberA_def memberB_def memberD_def
  accountX_def accountY_def db0_def invP_def invA_def invR_def db1_def

section \<open>Hierarchy lemmas\<close>

lemma role_level_simps:
  "dict_get ROLE_HIERARCHY ''owner'' 0 = 4"
  "dict_get ROLE_HIERARCHY ''admin'' 0 = 3"
  "dict_get ROLE_HIERARCHY ''member'' 0 = 2"
  "dict_get ROLE_HIERARCHY ''viewer'' 0 = 1"
  by (simp_all add: dict_get_def ROLE_HIERARCHY_def)

lemma role_level_unknown:
  "r \<notin> set known_roles \<Longrightarrow> dict_get ROLE_HIERARCHY r 0 = 0"
  by (simp add: dict_get_def ROLE_HIERARCHY_def known_roles_def)

lemma known_roles_cases:
  "r \<in> set known_roles \<longleftrightarrow> r = ''owner'' \<or> r = ''admin'' \<or> r = ''member'' \<or> r = ''viewer''"
  by (auto simp: known_roles_def ROLE_HIERARCHY_def)

lemma role_level_known_pos:
  "r \<in> set known_roles \<Longrightarrow> 1 \<le> dict_get ROLE_HIERARCHY r 0"
  by (auto simp: known_roles_cases role_level_simps)

section \<open>Membership checks\<close>

lemma get_active_org_None:
  "(get_active_org d oid = None) =
   (\<forall>org\<in>set (organizations d). org_id org = oid \<longrightarrow> org_deleted_at org \<noteq> None)"
  by (auto simp: get_active_org_def find_None_iff)

text \<open>
  Claim C9. \<^verbatim>\<open>check_org_permission\<close> looks the organization up first: when no row
  with this id is live (absent or soft-deleted) the result is the 404 "Organization not
  found", whatever the membership table holds. Only when the organization is live is the
  membership looked up (403 "not a member" when there is none), and only for a member is
  the minimum role compared (403 "insufficient permissions").
\<close>

theorem org_lookup_first:
  "((\<forall>org\<in>set (organizations d). org_id org = oid \<longrightarrow> org_deleted_at org \<noteq> None)
      \<longrightarrow> check_org_permission d user oid required_role = Inl OrgNotFound)
   \<and> ((\<exists>org\<in>set (organizations d). org_id org = oid \<and> org_deleted_at org = None)
      \<longrightarrow> (get_member d oid (u_id user) = None
             \<longrightarrow> check_org_permission d user oid required_role = Inl NotAMember)
        \<and> (\<forall>member. get_member d oid (u_id user) = Some member
             \<longrightarrow> check_org_permission d user oid required_role =
                 (case required_role of
                    None \<Rightarrow> Inr member
                  | Some r \<Rightarrow>
                      if r \<noteq> [] \<and> dict_get ROLE_HIERARCHY (m_role member) 0
                                      < dict_get ROLE_HIERARCHY r 0
                      then Inl (InsufficientRole r) else Inr member)))"
proof (cases "get_active_org d oid")
  case None
  then have "\<forall>org\<in>set (organizations d). org_id org = oid \<longrightarrow> org_deleted_at org \<noteq> None"
    using get_active_org_None[of d oid] by simp
  with None show ?thesis
    by (auto simp: check_org_permission_def)
next
  case (Some org)
  then have "\<not> (\<forall>org\<in>set (organizations d). org_id org = oid \<longrightarrow> org_deleted_at org \<noteq> None)"
    using get_active_org_None[of d oid] by simp
  with Some show ?thesis
    by (auto simp: check_org_permission_def role_insufficient_def split: option.splits)
qed

text \<open>
  Claim C10. An owner may manage every target except another owner, and always
  themself; an admin is refused exactly for targets that are owner or admin, hence also
  for another admin and for themself; a manager with any other role string (member,
  viewer, unknown) is always refused.
\<close>

theorem can_manage_member_rules:
  "(m_role manager = ''owner'' \<longrightarrow>
      can_manage_member manager target =
        (if m_role target = ''owner'' \<and> m_user_id target \<noteq> m_user_id manager
         then Inl CannotModifyAnotherOwner else Inr True))
   \<and> (m_role manager = ''owner'' \<and> m_user_id target = m_user_id manager \<longrightarrow>
      can_manage_member manager target = Inr True)
   \<and> (m_role manager = ''admin'' \<longrightarrow>
      can_manage_member manager target =
        (if m_role target = ''owner'' \<or> m_role target = ''admin''
         then Inl AdminsCannotModifyAdmins else Inr True))
   \<and> (m_role manager = ''admin'' \<longrightarrow> can_manage_member manager manager = Inl AdminsCannotModifyAdmins)
   \<and> (m_role manager \<noteq> ''owner'' \<and> m_role manager \<noteq> ''admin'' \<longrightarrow>
      can_manage_member manager target = Inl InsufficientToManage)"
  by (auto simp: can_manage_member_def)

lemma known_roles_set: "set known_roles = {''owner'', ''admin'', ''member'', ''viewer''}"
  by (auto simp: known_roles_def ROLE_HIERARCHY_def)

text \<open>
  Claim C8. The levels are viewer 1, member 2, admin 3, owner 4. For a member of a live
  organization and a required role, the check succeeds exactly when the member's level is
  at least the required level. A role string outside the four known ones has level 0 and is
  insufficient for every known required role. The comparison is reflexive and transitive
  on the known roles.
\<close>

theorem role_comparison:
  "dict_get ROLE_HIERARCHY ''viewer'' 0 = 1 \<and> dict_get ROLE_HIERARCHY ''member'' 0 = 2
   \<and> dict_get ROLE_HIERARCHY ''admin'' 0 = 3 \<and> dict_get ROLE_HIERARCHY ''owner'' 0 = 4
   \<and> set known_roles = {''owner'', ''admin'', ''member'', ''viewer''}
   \<and> (get_active_org d oid \<noteq> None \<and> get_member d oid (u_id user) = Some member \<and> required \<noteq> []
        \<longrightarrow> check_org_permission d user oid (Some required) =
            (if dict_get ROLE_HIERARCHY (m_role member) 0 \<ge> dict_get ROLE_HIERARCHY required 0
             then Inr member else Inl (InsufficientRole required)))
   \<and> (r \<notin> set known_roles \<longrightarrow>
        dict_get ROLE_HIERARCHY r 0 = 0 \<and> (\<forall>req\<in>set known_roles. role_insufficient r req))
   \<and> (a \<in> set known_roles \<longrightarrow> \<not> role_insufficient a a)
   \<and> (a \<in> set known_roles \<and> b \<in> set known_roles \<and> c \<in> set known_roles \<and>
        \<not> role_insufficient a b \<and> \<not> role_insufficient b c \<longrightarrow> \<not> role_insufficient a c)"
proof -
  have unknown: "\<forall>req\<in>set known_roles. role_insufficient r req" if "r \<notin> set known_roles"
    using that role_level_unknown[OF that] role_level_known_pos
    by (fastforce simp: role_insufficient_def)
  have chk: "check_org_permission d user oid (Some required) =
            (if dict_get ROLE_HIERARCHY (m_role member) 0 \<ge> dict_get ROLE_HIERARCHY required 0
             then Inr member else Inl (InsufficientRole required))"
    if "get_active_org d oid \<noteq> None" "get_member d oid (u_id user) = Some member" "required \<noteq> []"
    using that by (auto simp: check_org_permission_def role_insufficient_def)
  show ?thesis
    using unknown chk
    by (simp add: role_level_simps known_roles_set role_level_unknown role_insufficient_def)
qed

theorem role_comparison_witness:
  "check_org_permission db0 userB 1 (Some ''member'') = Inr memberB
   \<and> check_org_permission db0 userB 1 (Some ''admin'') = Inl (InsufficientRole ''admin'')
   \<and> dict_get ROLE_HIERARCHY ''superuser'' 0 = 0
   \<and> role_insufficient ''superuser'' ''viewer''
   \<and> \<not> role_insufficient ''admin'' ''admin''
   \<and> \<not> role_insufficient ''owner'' ''member''"
  using role_comparison[of db0 1 userB memberB "''member''" "''superuser''" "''owner''" "''admin''" "''member''"]
    role_comparison[of db0 1 userB memberB "''admin''" "''superuser''" "''admin''" "''admin''" "''member''"]
  by (simp add: example_defs get_active_org_def get_member_def role_insufficient_def)

theorem org_lookup_first_witness:
  "check_org_permission (db0\<lparr>organizations := []\<rparr>) userA 1 None = Inl OrgNotFound
   \<and> check_org_permission db0 userC 1 None = Inl NotAMember
   \<and> check_org_permission db0 userB 1 (Some ''owner'') = Inl (InsufficientRole ''owner'')
   \<and> check_org_permission db0 userA 1 (Some ''owner'') = Inr memberA"
  using org_lookup_first[of "db0\<lparr>organizations := []\<rparr>" 1 userA None]
    org_lookup_first[of db0 1 userC None]
    org_lookup_first[of db0 1 userB "Some ''owner''"]
    org_lookup_first[of db0 1 userA "Some ''owner''"]
  by (simp add: example_defs get_member_def role_level_simps)

theorem can_manage_member_rules_witness:
  "can_manage_member memberA memberA = Inr True
   \<and> can_manage_member memberA (memberB\<lparr>m_role := ''owner''\<rparr>) = Inl CannotModifyAnotherOwner
   \<and> can_manage_member (memberB\<lparr>m_role := ''admin''\<rparr>) memberD = Inr True
   \<and> can_manage_member (memberB\<lparr>m_role := ''admin''\<rparr>) (memberB\<lparr>m_role := ''admin''\<rparr>)
       = Inl AdminsCannotModifyAdmins
   \<and> can_manage_member memberB memberD = Inl InsufficientToManage"
  using can_manage_member_rules[of memberA memberA]
    can_manage_member_rules[of memberA "memberB\<lparr>m_role := ''owner''\<rparr>"]
    can_manage_member_rules[of "memberB\<lparr>m_role := ''admin''\<rparr>" memberD]
    can_manage_member_rules[of "memberB\<lparr>m_role := ''admin''\<rparr>" "memberB\<lparr>m_role := ''admin''\<rparr>"]
    can_manage_member_rules[of memberB memberD]
  by (simp add: example_defs)


section \<open>Invitation token check and account access\<close>

lemma find_update_first_same:
  "(\<And>x. P x \<Longrightarrow> P (f x)) \<Longrightarrow> find P (update_first P f xs) = map_option f (find P xs)"
  by (induction xs) auto

lemma perm_level_simps:
  "dict_get PERMISSION_HIERARCHY ''full'' 0 = 3"
  "dict_get PERMISSION_HIERARCHY ''edit'' 0 = 2"
  "dict_get PERMISSION_HIERARCHY ''view'' 0 = 1"
  "dict_get PERMISSION_HIERARCHY [] 0 = 0"
  by (simp_all add: dict_get_def PERMISSION_HIERARCHY_def)

lemma known_permissions_set: "set known_permissions = {''full'', ''edit'', ''view''}"
  by (auto simp: known_permissions_def PERMISSION_HIERARCHY_def)

lemma find_filter_same: "find P (filter P xs) = find P xs"
  by (induction xs) auto

lemma perm_level_known_pos:
  "p \<in> set known_permissions \<Longrightarrow> 1 \<le> dict_get PERMISSION_HIERARCHY p 0"
  by (auto simp: known_permissions_def PERMISSION_HIERARCHY_def dict_get_def)

text \<open>
  Claim C3. \<^verbatim>\<open>verify_invitation_token\<close> checks existence, then
  \<^verbatim>\<open>accepted_at\<close>, then \<^verbatim>\<open>rejected_at\<close>, then the expiry, in this order. So an
  accepted invitation whose expiry has passed is reported as already accepted, not as
  expired; and in a state where the token's invitation has \<^verbatim>\<open>accepted_at\<close> or
  \<^verbatim>\<open>rejected_at\<close> set the check fails at every time of call. A successful accept
  (reject) leaves such a state behind: every later check of the token answers already
  accepted (already rejected).
\<close>

theorem verify_token_order:
  "(find (\<lambda>i. inv_token i = token) (invitations d) = None
      \<longrightarrow> verify_invitation_token d token now = Inl InvitationNotFound)
   \<and> (find (\<lambda>i. inv_token i = token) (invitations d) = Some invitation
      \<longrightarrow> verify_invitation_token d token now =
            (if inv_accepted_at invitation \<noteq> None then Inl AlreadyAccepted
             else if inv_rejected_at invitation \<noteq> None then Inl AlreadyRejected
             else if inv_expires_at invitation < now then Inl Expired
             else Inr invitation))
   \<and> (find (\<lambda>i. inv_token i = token) (invitations d) = Some invitation
        \<and> inv_accepted_at invitation \<noteq> None \<and> inv_expires_at invitation < now
      \<longrightarrow> verify_invitation_token d token now = Inl AlreadyAccepted)
   \<and> (find (\<lambda>i. inv_token i = token) (invitations d) = Some invitation
        \<and> (inv_accepted_at invitation \<noteq> None \<or> inv_rejected_at invitation \<noteq> None)
      \<longrightarrow> (\<forall>later. isl (verify_invitation_token d token later)))
   \<and> (fst (accept_invitation fault now token wrapped_org_key current_user d) = Inr accepted
      \<longrightarrow> (\<forall>later. verify_invitation_token
                      (snd (accept_invitation fault now token wrapped_org_key current_user d))
                      token later = Inl AlreadyAccepted))
   \<and> (fst (reject_invitation fault now token current_user d) = Inr rejected
      \<longrightarrow> (\<forall>later. verify_invitation_token
                      (snd (reject_invitation fault now token current_user d))
                      token later = Inl AlreadyRejected))"
proof -
  have acc: "verify_invitation_token
               (snd (accept_invitation fault now token wrapped_org_key current_user d))
               token later = Inl AlreadyAccepted"
    if "fst (accept_invitation fault now token wrapped_org_key current_user d) = Inr accepted"
    for later
    using that
    by (auto simp: accept_invitation_def verify_invitation_token_def log_audit_def Let_def
          find_update_first_same
        split: if_splits option.splits sum.splits)
  have rej: "verify_invitation_token
               (snd (reject_invitation fault now token current_user d))
               token later = Inl AlreadyRejected"
    if "fst (reject_invitation fault now token current_user d) = Inr rejected"
    for later
    using that
    by (auto simp: reject_invitation_def verify_invitation_token_def log_audit_def Let_def
          find_update_first_same
        split: if_splits option.splits sum.splits)
  show ?thesis
    using acc rej by (auto simp: verify_invitation_token_def)
qed

text \<open>
  Claim C1. For a live organizational account and a member of its organization: owner
  and admin are granted whatever is required. For member and viewer the request is granted
  exactly when the explicit row of the table \<^verbatim>\<open>account_permissions\<close> for this account
  and this user meets the required level, or the account's default permission meets it (an
  insufficient explicit row does not deny: the default is still consulted), or the role is
  viewer and exactly view is required; otherwise the result is the 403 "Insufficient
  account permissions". Permission rows of other accounts or other users have no
  influence. The required permission is one of full, edit, view (or the default
  permission is a non-empty string, which the column's default guarantees): the source
  skips an empty default.
\<close>

theorem account_access_org:
  assumes "find (\<lambda>a. acc_id a = account_id \<and> acc_deleted_at a = None) (accounts d) = Some account"
    and "acc_organization_id account = Some oid"
    and "find (\<lambda>m. m_organization_id m = oid \<and> m_user_id m = u_id user) (members d) = Some member"
  shows "(m_role member = ''owner'' \<or> m_role member = ''admin''
            \<longrightarrow> check_account_permission d user account_id required_permission = Inr True)
       \<and> ((m_role member = ''member'' \<or> m_role member = ''viewer'')
            \<and> (required_permission \<in> set known_permissions \<or> acc_default_permission account \<noteq> [])
            \<longrightarrow> check_account_permission d user account_id required_permission =
                (if (\<exists>p. find (\<lambda>p. ap_account_id p = account_id \<and> ap_user_id p = u_id user)
                            (account_permissions d) = Some p
                          \<and> dict_get PERMISSION_HIERARCHY (ap_permission p) 0
                              \<ge> dict_get PERMISSION_HIERARCHY required_permission 0)
                    \<or> dict_get PERMISSION_HIERARCHY (acc_default_permission account) 0
                         \<ge> dict_get PERMISSION_HIERARCHY required_permission 0
                    \<or> (m_role member = ''viewer'' \<and> required_permission = ''view'')
                 then Inr True
                 else Inl (InsufficientPermission required_permission)))
       \<and> check_account_permission
            (d\<lparr>account_permissions :=
                 filter (\<lambda>p. ap_account_id p = account_id \<and> ap_user_id p = u_id user)
                   (account_permissions d)\<rparr>)
            user account_id required_permission
          = check_account_permission d user account_id required_permission"
proof -
  have empty_default:
    "\<not> dict_get PERMISSION_HIERARCHY [] 0 \<ge> dict_get PERMISSION_HIERARCHY required_permission 0"
    if "required_permission \<in> set known_permissions"
    using perm_level_known_pos[OF that] by (simp add: perm_level_simps)
  have mem: "get_member d oid (u_id user) = Some member"
    using assms(3) by (simp add: get_member_def)
  have keyed: "find (\<lambda>p. ap_account_id p = account_id \<and> ap_user_id p = u_id user)
                 (filter (\<lambda>p. ap_account_id p = account_id \<and> ap_user_id p = u_id user)
                    (account_permissions d))
               = find (\<lambda>p. ap_account_id p = account_id \<and> ap_user_id p = u_id user)
                   (account_permissions d)"
    by (rule find_filter_same)
  have rows: "check_account_permission
            (d\<lparr>account_permissions :=
                 filter (\<lambda>p. ap_account_id p = account_id \<and> ap_user_id p = u_id user)
                   (account_permissions d)\<rparr>)
            user account_id required_permission
          = check_account_permission d user account_id required_permission"
    by (simp add: check_account_permission_def get_account_permission_def get_member_def keyed
          cong: option.case_cong if_cong)
  have cases: "(m_role member = ''owner'' \<or> m_role member = ''admin''
            \<longrightarrow> check_account_permission d user account_id required_permission = Inr True)
       \<and> ((m_role member = ''member'' \<or> m_role member = ''viewer'')
            \<and> (required_permission \<in> set known_permissions \<or> acc_default_permission account \<noteq> [])
            \<longrightarrow> check_account_permission d user account_id required_permission =
                (if (\<exists>p. find (\<lambda>p. ap_account_id p = account_id \<and> ap_user_id p = u_id user)
                            (account_permissions d) = Some p
                          \<and> dict_get PERMISSION_HIERARCHY (ap_permission p) 0
                              \<ge> dict_get PERMISSION_HIERARCHY required_permission 0)
                    \<or> dict_get PERMISSION_HIERARCHY (acc_default_permission account) 0
                         \<ge> dict_get PERMISSION_HIERARCHY required_permission 0
                    \<or> (m_role member = ''viewer'' \<and> required_permission = ''view'')
                 then Inr True
                 else Inl (InsufficientPermission required_permission)))"
    using assms(1,2) mem empty_default
    by (auto simp: check_account_permission_def get_account_permission_def split: option.splits)
  from cases rows show ?thesis by simp
qed

theorem verify_token_order_witness:
  "verify_invitation_token db1 ''nope'' 500 = Inl InvitationNotFound
   \<and> verify_invitation_token db1 ''tokP'' 500 = Inr invP
   \<and> verify_invitation_token db1 ''tokP'' 1001 = Inl Expired
   \<and> verify_invitation_token db1 ''tokA'' 2000 = Inl AlreadyAccepted
   \<and> isl (verify_invitation_token db1 ''tokR'' 500)
   \<and> verify_invitation_token
        (snd (accept_invitation NoFault 500 ''tokP'' ''keyC'' userC db1)) ''tokP'' 600
      = Inl AlreadyAccepted
   \<and> verify_invitation_token
        (snd (reject_invitation NoFault 500 ''tokP'' userC db1)) ''tokP'' 600
      = Inl AlreadyRejected"
proof -
  have a: "fst (accept_invitation NoFault 500 ''tokP'' ''keyC'' userC db1)
           = Inr (invP\<lparr>inv_accepted_at := Some 500\<rparr>)"
    by (simp add: accept_invitation_def verify_invitation_token_def get_member_def
          commit_fails_def log_audit_def Let_def example_defs)
  have r: "fst (reject_invitation NoFault 500 ''tokP'' userC db1)
           = Inr (invP\<lparr>inv_rejected_at := Some 500\<rparr>)"
    by (simp add: reject_invitation_def verify_invitation_token_def
          commit_fails_def log_audit_def Let_def example_defs)
  have f: "find (\<lambda>i. inv_token i = ''nope'') (invitations db1) = None"
    "find (\<lambda>i. inv_token i = ''tokP'') (invitations db1) = Some invP"
    "find (\<lambda>i. inv_token i = ''tokA'') (invitations db1) = Some invA"
    "find (\<lambda>i. inv_token i = ''tokR'') (invitations db1) = Some invR"
    by (simp_all add: example_defs)
  have v: "inv_accepted_at invP = None" "inv_rejected_at invP = None" "inv_expires_at invP = 1000"
    "inv_accepted_at invA = Some 50" "inv_expires_at invA = 900"
    "inv_rejected_at invR = Some 60"
    by (simp_all add: example_defs)
  show ?thesis
    using verify_token_order[where token="''nope''" and d=db1 and invitation=invP and now=500 and fault=NoFault
          and wrapped_org_key="''keyC''" and current_user=userC
          and accepted="invP\<lparr>inv_accepted_at := Some 500\<rparr>"
          and rejected="invP\<lparr>inv_rejected_at := Some 500\<rparr>"]
      verify_token_order[where token="''tokP''" and d=db1 and invitation=invP and now=500 and fault=NoFault
          and wrapped_org_key="''keyC''" and current_user=userC
          and accepted="invP\<lparr>inv_accepted_at := Some 500\<rparr>"
          and rejected="invP\<lparr>inv_rejected_at := Some 500\<rparr>"]
      verify_token_order[where token="''tokP''" and d=db1 and invitation=invP and now=1001 and fault=NoFault
          and wrapped_org_key="''keyC''" and current_user=userC
          and accepted="invP\<lparr>inv_accepted_at := Some 500\<rparr>"
          and rejected="invP\<lparr>inv_rejected_at := Some 500\<rparr>"]
      verify_token_order[where token="''tokA''" and d=db1 and invitation=invA and now=2000 and fault=NoFault
          and wrapped_org_key="''keyC''" and current_user=userC
          and accepted="invP\<lparr>inv_accepted_at := Some 500\<rparr>"
          and rejected="invP\<lparr>inv_rejected_at := Some 500\<rparr>"]
      verify_token_order[where token="''tokR''" and d=db1 and invitation=invR and now=500 and fault=NoFault
          and wrapped_org_key="''keyC''" and current_user=userC
          and accepted="invP\<lparr>inv_accepted_at := Some 500\<rparr>"
          and rejected="invP\<lparr>inv_rejected_at := Some 500\<rparr>"]
    by (simp add: a r f v)
qed

text \<open>
  In the first table below the first row is for another account and the second for
  another user, both with full permission; B's own row on account 10 grants view only.
\<close>

theorem account_access_org_witness:
  "check_account_permission db0 userA 10 ''full'' = Inr True
   \<and> check_account_permission db0 userB 10 ''edit'' = Inl (InsufficientPermission ''edit'')
   \<and> check_account_permission
        (db0\<lparr>account_permissions :=
               [\<lparr>ap_account_id = 11, ap_user_id = 2, ap_permission = ''full''\<rparr>,
                \<lparr>ap_account_id = 10, ap_user_id = 4, ap_permission = ''full''\<rparr>,
                \<lparr>ap_account_id = 10, ap_user_id = 2, ap_permission = ''view''\<rparr>]\<rparr>)
        userB 10 ''edit'' = Inl (InsufficientPermission ''edit'')
   \<and> check_account_permission
        (db0\<lparr>account_permissions :=
               [\<lparr>ap_account_id = 10, ap_user_id = 4, ap_permission = ''view''\<rparr>,
                \<lparr>ap_account_id = 10, ap_user_id = 2, ap_permission = ''full''\<rparr>]\<rparr>)
        userB 10 ''edit'' = Inr True
   \<and> check_account_permission db0 userD 10 ''view'' = Inr True"
proof -
  let ?d1 = "db0\<lparr>account_permissions :=
               [\<lparr>ap_account_id = 11, ap_user_id = 2, ap_permission = ''full''\<rparr>,
                \<lparr>ap_account_id = 10, ap_user_id = 4, ap_permission = ''full''\<rparr>,
                \<lparr>ap_account_id = 10, ap_user_id = 2, ap_permission = ''view''\<rparr>]\<rparr>"
  let ?d2 = "db0\<lparr>account_permissions :=
               [\<lparr>ap_account_id = 10, ap_user_id = 4, ap_permission = ''view''\<rparr>,
                \<lparr>ap_account_id = 10, ap_user_id = 2, ap_permission = ''full''\<rparr>]\<rparr>"
  have acc: "find (\<lambda>a. acc_id a = 10 \<and> acc_deleted_at a = None) (accounts db0) = Some accountX"
    "find (\<lambda>a. acc_id a = 10 \<and> acc_deleted_at a = None) (accounts ?d1) = Some accountX"
    "find (\<lambda>a. acc_id a = 10 \<and> acc_deleted_at a = None) (accounts ?d2) = Some accountX"
    "acc_organization_id accountX = Some 1"
    by (simp_all add: example_defs)
  have mem: "find (\<lambda>m. m_organization_id m = 1 \<and> m_user_id m = u_id userA) (members db0)
             = Some memberA"
    "find (\<lambda>m. m_organization_id m = 1 \<and> m_user_id m = u_id userB) (members db0) = Some memberB"
    "find (\<lambda>m. m_organization_id m = 1 \<and> m_user_id m = u_id userB) (members ?d1) = Some memberB"
    "find (\<lambda>m. m_organization_id m = 1 \<and> m_user_id m = u_id userB) (members ?d2) = Some memberB"
    "find (\<lambda>m. m_organization_id m = 1 \<and> m_user_id m = u_id userD) (members db0) = Some memberD"
    by (simp_all add: example_defs)
  have w1: "check_account_permission db0 userA 10 ''full'' = Inr True"
    using account_access_org[OF acc(1) acc(4) mem(1), of "''full''", THEN conjunct1]
    by (simp add: memberA_def)
  have w2: "check_account_permission db0 userB 10 ''edit'' = Inl (InsufficientPermission ''edit'')"
    using account_access_org[OF acc(1) acc(4) mem(2), of "''edit''", THEN conjunct2, THEN conjunct1]
    by (simp add: example_defs perm_level_simps known_permissions_set)
  have w3: "check_account_permission ?d1 userB 10 ''edit'' = Inl (InsufficientPermission ''edit'')"
    using account_access_org[OF acc(2) acc(4) mem(3), of "''edit''", THEN conjunct2, THEN conjunct1]
    by (simp add: example_defs perm_level_simps known_permissions_set)
  have w4: "check_account_permission ?d2 userB 10 ''edit'' = Inr True"
    using account_access_org[OF acc(3) acc(4) mem(4), of "''edit''", THEN conjunct2, THEN conjunct1]
    by (simp add: example_defs perm_level_simps known_permissions_set)
  have w5: "check_account_permission db0 userD 10 ''view'' = Inr True"
    using account_access_org[OF acc(1) acc(4) mem(5), of "''view''", THEN conjunct2, THEN conjunct1]
    by (simp add: example_defs perm_level_simps known_permissions_set)
  from w1 w2 w3 w4 w5 show ?thesis by simp
qed


section \<open>Invitation creation and acceptance\<close>

lemma length_update_first: "length (update_first P f xs) = length xs"
  by (induction xs) auto

lemma find_append_first:
  "find P (xs @ ys) = (case find P xs of None \<Rightarrow> find P ys | Some x \<Rightarrow> Some x)"
  by (induction xs) auto

lemma find_distinct_key:
  "distinct (map f xs) \<Longrightarrow> x \<in> set xs \<Longrightarrow> find (\<lambda>y. f y = f x) xs = Some x"
  by (induction xs) (auto simp: image_iff)

lemma existing_member_by_email_iff:
  assumes "distinct (map u_email (users d))"
  shows "(existing_member_by_email d oid email \<noteq> None) =
         (\<exists>u\<in>set (users d). u_email u = email \<and>
            (\<exists>m\<in>set (members d). m_organization_id m = oid \<and> m_user_id m = u_id u))"
proof
  assume "existing_member_by_email d oid email \<noteq> None"
  then obtain u m where u: "find (\<lambda>u. u_email u = email) (users d) = Some u"
    and m: "get_member d oid (u_id u) = Some m"
    by (auto simp: existing_member_by_email_def split: option.splits)
  from u have "u \<in> set (users d)" "u_email u = email"
    by (auto simp: find_Some_iff in_set_conv_nth)
  moreover from m have "m \<in> set (members d)" "m_organization_id m = oid" "m_user_id m = u_id u"
    by (auto simp: get_member_def find_Some_iff in_set_conv_nth)
  ultimately show "\<exists>u\<in>set (users d). u_email u = email \<and>
            (\<exists>m\<in>set (members d). m_organization_id m = oid \<and> m_user_id m = u_id u)"
    by blast
next
  assume "\<exists>u\<in>set (users d). u_email u = email \<and>
            (\<exists>m\<in>set (members d). m_organization_id m = oid \<and> m_user_id m = u_id u)"
  then obtain u m where u: "u \<in> set (users d)" "u_email u = email"
    and m: "m \<in> set (members d)" "m_organization_id m = oid" "m_user_id m = u_id u"
    by blast
  from find_distinct_key[OF assms u(1)] u(2)
  have "find (\<lambda>u. u_email u = email) (users d) = Some u" by simp
  moreover from m have "get_member d oid (u_id u) \<noteq> None"
    by (auto simp: get_member_def find_None_iff)
  ultimately show "existing_member_by_email d oid email \<noteq> None"
    by (simp add: existing_member_by_email_def)
qed

lemma length_urlsafe_b64encode: "length (urlsafe_b64encode bs) = (4 * length bs + 2) div 3"
  by (induction bs rule: urlsafe_b64encode.induct) auto

lemma b64char_in: "b64char n \<in> set urlsafe_alphabet"
proof -
  have "length urlsafe_alphabet = 64" by (simp add: urlsafe_alphabet_def)
  then have "n mod 64 < length urlsafe_alphabet" by simp
  then show ?thesis unfolding b64char_def by (rule nth_mem)
qed

lemma set_urlsafe_b64encode: "set (urlsafe_b64encode bs) \<subseteq> set urlsafe_alphabet"
  by (induction bs rule: urlsafe_b64encode.induct) (auto simp: b64char_in)

text \<open>
  Whatever the random source returns, the token has 43 characters, all of them letters,
  digits, hyphen or underscore.
\<close>

lemma token_urlsafe_shape:
  "length (token_urlsafe urandom 32) = 43
   \<and> set (token_urlsafe urandom 32) \<subseteq> set urlsafe_alphabet"
  by (simp add: token_urlsafe_def token_bytes_def length_urlsafe_b64encode set_urlsafe_b64encode)

lemma token_zero:
  "token_urlsafe (\<lambda>i. 0) 32 = ''AAAAAAAAAAAAAAAAAAAAAAAAAAAAAAAAAAAAAAAAAAA''"
  by code_simp

text \<open>
  The outcomes of \<^verbatim>\<open>create_invitation\<close> for an inviter that passes
  \<^verbatim>\<open>check_org_admin\<close>, a body that passes the schema apart from its role, and
  e-mail addresses unique among users: 422 for the role owner; 400 when a user with the
  invitee's e-mail is a member; 400 when an active invitation to this e-mail exists; a
  storage error, with nothing stored, when the table holds an invitation to this e-mail
  that is not active; and only when the table holds no invitation of this organization
  to this e-mail at all, and not the token either, is a new pending invitation stored,
  whose expiry lies seven days after its creation.
\<close>

lemma create_invitation_cases:
  assumes "check_org_admin d current_user oid = Inr member"
    and "distinct (map u_email (users d))"
    and "email_str (ic_email invitation_data) = Some email"
    and "ic_wrapped_org_key invitation_data \<noteq> []"
  shows "(ic_role invitation_data = OWNER \<longrightarrow>
            create_invitation email_str urandom utc_offset fault now oid invitation_data
              current_user d = (Inl ValidationError, d))
       \<and> (ic_role invitation_data \<noteq> OWNER
            \<and> (\<exists>u\<in>set (users d). u_email u = email \<and>
                 (\<exists>m\<in>set (members d). m_organization_id m = oid \<and> m_user_id m = u_id u)) \<longrightarrow>
            create_invitation email_str urandom utc_offset fault now oid invitation_data
              current_user d = (Inl UserAlreadyMember, d))
       \<and> (ic_role invitation_data \<noteq> OWNER
            \<and> \<not> (\<exists>u\<in>set (users d). u_email u = email \<and>
                 (\<exists>m\<in>set (members d). m_organization_id m = oid \<and> m_user_id m = u_id u))
            \<and> (\<exists>i\<in>set (invitations d).
                  inv_organization_id i = oid \<and> inv_email i = email \<and>
                  inv_accepted_at i = None \<and> inv_rejected_at i = None \<and>
                  inv_expires_at i > now - utc_offset) \<longrightarrow>
            create_invitation email_str urandom utc_offset fault now oid invitation_data
              current_user d = (Inl ActiveInvitationExists, d))
       \<and> (ic_role invitation_data \<noteq> OWNER
            \<and> \<not> (\<exists>u\<in>set (users d). u_email u = email \<and>
                 (\<exists>m\<in>set (members d). m_organization_id m = oid \<and> m_user_id m = u_id u))
            \<and> \<not> (\<exists>i\<in>set (invitations d).
                  inv_organization_id i = oid \<and> inv_email i = email \<and>
                  inv_accepted_at i = None \<and> inv_rejected_at i = None \<and>
                  inv_expires_at i > now - utc_offset)
            \<and> (\<exists>i\<in>set (invitations d). inv_organization_id i = oid \<and> inv_email i = email) \<longrightarrow>
            create_invitation email_str urandom utc_offset fault now oid invitation_data
              current_user d = (Inl StorageError, d))
       \<and> (ic_role invitation_data \<noteq> OWNER
            \<and> \<not> (\<exists>u\<in>set (users d). u_email u = email \<and>
                 (\<exists>m\<in>set (members d). m_organization_id m = oid \<and> m_user_id m = u_id u))
            \<and> \<not> (\<exists>i\<in>set (invitations d). inv_organization_id i = oid \<and> inv_email i = email)
            \<and> token_urlsafe urandom 32 \<notin> inv_token ` set (invitations d)
            \<and> fault = NoFault \<longrightarrow>
            (\<exists>new_invitation d'.
               create_invitation email_str urandom utc_offset fault now oid invitation_data
                 current_user d = (Inr new_invitation, d')
               \<and> new_invitation =
                   \<lparr>inv_organization_id = oid, inv_email = email,
                    inv_role = role_value (ic_role invitation_data),
                    inv_wrapped_org_key = ic_wrapped_org_key invitation_data,
                    inv_invited_by = u_id current_user,
                    inv_token = token_urlsafe urandom 32,
                    inv_expires_at = now - utc_offset + 7 * 86400,
                    inv_created_at = now - utc_offset,
                    inv_accepted_at = None, inv_rejected_at = None\<rparr>
               \<and> invitations d' = invitations d @ [new_invitation]
               \<and> members d' = members d \<and> users d' = users d
               \<and> organizations d' = organizations d \<and> accounts d' = accounts d
               \<and> account_permissions d' = account_permissions d))"
proof -
  let ?R = "create_invitation email_str urandom utc_offset fault now oid invitation_data
              current_user d"
  let ?mem = "\<exists>u\<in>set (users d). u_email u = email \<and>
                 (\<exists>m\<in>set (members d). m_organization_id m = oid \<and> m_user_id m = u_id u)"
  let ?act = "\<exists>i\<in>set (invitations d).
                  inv_organization_id i = oid \<and> inv_email i = email \<and>
                  inv_accepted_at i = None \<and> inv_rejected_at i = None \<and>
                  inv_expires_at i > now - utc_offset"
  let ?row = "\<exists>i\<in>set (invitations d). inv_organization_id i = oid \<and> inv_email i = email"
  from assms(1) obtain org_row where org: "get_active_org d oid = Some org_row"
    by (auto simp: check_org_admin_def check_org_permission_def split: option.splits)
  have mem: "(existing_member_by_email d oid email \<noteq> None) = ?mem"
    by (rule existing_member_by_email_iff[OF assms(2)])
  have act: "(find (is_active_invitation oid email (as_timestamptz utc_offset now))
                (invitations d) \<noteq> None) = ?act"
    by (auto simp: find_None_iff is_active_invitation_def as_timestamptz_def)
  have c1: "ic_role invitation_data = OWNER \<Longrightarrow> ?R = (Inl ValidationError, d)"
    using assms(3,4) by (simp add: create_invitation_def role_not_owner_def)
  have c2: "ic_role invitation_data \<noteq> OWNER \<Longrightarrow> ?mem \<Longrightarrow> ?R = (Inl UserAlreadyMember, d)"
    using org mem assms(1,3,4)
    by (auto simp: create_invitation_def role_not_owner_def split: option.splits)
  have c3: "ic_role invitation_data \<noteq> OWNER \<Longrightarrow> \<not> ?mem \<Longrightarrow> ?act \<Longrightarrow>
            ?R = (Inl ActiveInvitationExists, d)"
    using org mem act assms(1,3,4)
    by (auto simp: create_invitation_def role_not_owner_def split: option.splits)
  have nomem: "existing_member_by_email d oid email = None" if "\<not> ?mem"
    using that mem by (cases "existing_member_by_email d oid email") auto
  have noact: "find (is_active_invitation oid email (as_timestamptz utc_offset now))
                 (invitations d) = None" if "\<not> ?act"
    using that act
    by (cases "find (is_active_invitation oid email (as_timestamptz utc_offset now))
                 (invitations d)") auto
  have c4: "?R = (Inl StorageError, d)"
    if "ic_role invitation_data \<noteq> OWNER" "\<not> ?mem" "\<not> ?act" "?row"
  proof -
    have v: "(oid, email) \<in> set (map (\<lambda>i. (inv_organization_id i, inv_email i)) (invitations d))"
      using that(4) by (auto simp: image_iff)
    show ?thesis
      using that(1) nomem[OF that(2)] noact[OF that(3)] org assms(1,3,4) v
      by (simp add: create_invitation_def role_not_owner_def Let_def
            violates_invitation_constraints_def)
  qed
  have c5: "\<exists>new_invitation d'.
               ?R = (Inr new_invitation, d')
               \<and> new_invitation =
                   \<lparr>inv_organization_id = oid, inv_email = email,
                    inv_role = role_value (ic_role invitation_data),
                    inv_wrapped_org_key = ic_wrapped_org_key invitation_data,
                    inv_invited_by = u_id current_user,
                    inv_token = token_urlsafe urandom 32,
                    inv_expires_at = now - utc_offset + 7 * 86400,
                    inv_created_at = now - utc_offset,
                    inv_accepted_at = None, inv_rejected_at = None\<rparr>
               \<and> invitations d' = invitations d @ [new_invitation]
               \<and> members d' = members d \<and> users d' = users d
               \<and> organizations d' = organizations d \<and> accounts d' = accounts d
               \<and> account_permissions d' = account_permissions d"
    if "ic_role invitation_data \<noteq> OWNER" "\<not> ?mem" "\<not> ?row"
      "token_urlsafe urandom 32 \<notin> inv_token ` set (invitations d)" "fault = NoFault"
  proof -
    from that(3) have na: "\<not> ?act" by blast
    have v: "(oid, email) \<notin> set (map (\<lambda>i. (inv_organization_id i, inv_email i)) (invitations d))"
      using that(3) by (auto simp: image_iff)
    show ?thesis
      using that(1,4,5) nomem[OF that(2)] noact[OF na] org assms(1,3,4) v
      by (simp add: create_invitation_def role_not_owner_def commit_fails_def log_audit_def
            Let_def timedelta_days_def as_timestamptz_def violates_invitation_constraints_def)
  qed
  show ?thesis
    using c1 c2 c3 c4 c5 by blast
qed

text \<open>
  Claim C6, at the input where the code departs from it. Organization 1 holds an
  invitation to c@example.org that expired at time 1000 and was neither accepted nor
  rejected; C is not a member. At time 1500 the owner A invites c@example.org again, as
  viewer. None of the claim's three failure conditions holds (the role is not owner, no
  member has this e-mail, no invitation to it is active) and the token is not stored, so
  the claim has a new pending invitation created. The handler passes its checks and
  inserts; the insert violates \<^verbatim>\<open>uq_org_invitation\<close> at the commit, and the request
  ends in a storage error with no invitation stored. In the same state without the
  expired row the invitation is created.
\<close>

theorem create_invitation_reinvite_fails:
  "check_org_admin db1 userA 1 = Inr memberA
   \<and> existing_member_by_email db1 1 ''c@example.org'' = None
   \<and> find (is_active_invitation 1 ''c@example.org'' 1500) (invitations db1) = None
   \<and> verify_invitation_token db1 ''tokP'' 1500 = Inl Expired
   \<and> token_urlsafe (\<lambda>i. 0) 32 \<notin> set (map inv_token (invitations db1))
   \<and> create_invitation Some (\<lambda>i. 0) 0 NoFault 1500 1
        \<lparr>ic_email = ''c@example.org'', ic_role = VIEWER, ic_wrapped_org_key = ''rsaC''\<rparr>
        userA db1
      = (Inl StorageError, db1)
   \<and> invitations (snd (create_invitation Some (\<lambda>i. 0) 0 NoFault 1500 1
        \<lparr>ic_email = ''c@example.org'', ic_role = VIEWER, ic_wrapped_org_key = ''rsaC''\<rparr>
        userA (db1\<lparr>invitations := [invA, invR]\<rparr>)))
      = [invA, invR,
         \<lparr>inv_organization_id = 1, inv_email = ''c@example.org'', inv_role = ''viewer'',
          inv_wrapped_org_key = ''rsaC'', inv_invited_by = 1,
          inv_token = ''AAAAAAAAAAAAAAAAAAAAAAAAAAAAAAAAAAAAAAAAAAA'',
          inv_expires_at = 606300, inv_created_at = 1500,
          inv_accepted_at = None, inv_rejected_at = None\<rparr>]"
proof -
  have adm: "check_org_admin db1 userA 1 = Inr memberA"
    by (simp add: check_org_admin_def check_org_permission_def get_active_org_def get_member_def
          role_insufficient_def role_level_simps example_defs)
  have org: "get_active_org db1 1 = Some \<lparr>org_id = 1, org_name = ''Family'', org_created_by = 1,
                                          org_deleted_at = None\<rparr>"
    by (simp add: get_active_org_def example_defs)
  have mem: "existing_member_by_email db1 1 ''c@example.org'' = None"
    "existing_member_by_email (db1\<lparr>invitations := [invA, invR]\<rparr>) 1 ''c@example.org'' = None"
    by (simp_all add: existing_member_by_email_def get_member_def example_defs)
  have act: "find (is_active_invitation 1 ''c@example.org'' 1500) (invitations db1) = None"
    "find (is_active_invitation 1 ''c@example.org'' 1500) [invA, invR] = None"
    by (simp_all add: is_active_invitation_def example_defs)
  have ver: "verify_invitation_token db1 ''tokP'' 1500 = Inl Expired"
    by (simp add: verify_invitation_token_def example_defs)
  have tok: "token_urlsafe (\<lambda>i. 0) 32 \<notin> set (map inv_token (invitations db1))"
    by (simp add: token_zero example_defs)
  have r1: "create_invitation Some (\<lambda>i. 0) 0 NoFault 1500 1
        \<lparr>ic_email = ''c@example.org'', ic_role = VIEWER, ic_wrapped_org_key = ''rsaC''\<rparr>
        userA db1 = (Inl StorageError, db1)"
    using adm org mem(1) act(1)
    by (simp add: create_invitation_def role_not_owner_def as_timestamptz_def Let_def
          violates_invitation_constraints_def token_zero)
       (simp add: example_defs)
  have adm2: "check_org_admin (db1\<lparr>invitations := [invA, invR]\<rparr>) userA 1 = Inr memberA"
    by (simp add: check_org_admin_def check_org_permission_def get_active_org_def get_member_def
          role_insufficient_def role_level_simps example_defs)
  have org2: "get_active_org (db1\<lparr>invitations := [invA, invR]\<rparr>) 1
              = Some \<lparr>org_id = 1, org_name = ''Family'', org_created_by = 1,
                      org_deleted_at = None\<rparr>"
    by (simp add: get_active_org_def example_defs)
  have r2: "invitations (snd (create_invitation Some (\<lambda>i. 0) 0 NoFault 1500 1
        \<lparr>ic_email = ''c@example.org'', ic_role = VIEWER, ic_wrapped_org_key = ''rsaC''\<rparr>
        userA (db1\<lparr>invitations := [invA, invR]\<rparr>)))
      = [invA, invR,
         \<lparr>inv_organization_id = 1, inv_email = ''c@example.org'', inv_role = ''viewer'',
          inv_wrapped_org_key = ''rsaC'', inv_invited_by = 1,
          inv_token = ''AAAAAAAAAAAAAAAAAAAAAAAAAAAAAAAAAAAAAAAAAAA'',
          inv_expires_at = 606300, inv_created_at = 1500,
          inv_accepted_at = None, inv_rejected_at = None\<rparr>]"
    using adm2 org2 mem(2) act(2)
    by (simp add: create_invitation_def role_not_owner_def as_timestamptz_def Let_def
          violates_invitation_constraints_def token_zero timedelta_days_def commit_fails_def
          log_audit_def)
       (simp add: example_defs)
  from adm mem(1) act(1) ver tok r1 r2 show ?thesis by simp
qed




section \<open>Exactly one owner per organization\<close>

lemma update_first_no_match: "find Q xs = None \<Longrightarrow> update_first Q f xs = xs"
  by (induction xs) (auto split: if_splits)

lemma count_update_first:
  "find Q xs = Some x \<Longrightarrow>
   length (filter P (update_first Q f xs)) + (if P x then 1 else 0)
     = length (filter P xs) + (if P (f x) then 1 else 0)"
  by (induction xs) (auto split: if_splits)

lemma find_update_first_other:
  "(\<And>x. Q2 (f x) = Q2 x) \<Longrightarrow> (\<And>x. Q1 x \<Longrightarrow> \<not> Q2 x) \<Longrightarrow>
   find Q2 (update_first Q1 f xs) = find Q2 xs"
  by (induction xs) auto

lemma count_delete_first:
  "find Q xs = Some x \<Longrightarrow>
   length (filter P (delete_first Q xs)) + (if P x then 1 else 0) = length (filter P xs)"
  by (induction xs) (auto split: if_splits)

lemma map_update_first_invariant:
  "(\<And>x. g (f x) = g x) \<Longrightarrow> map g (update_first Q f xs) = map g xs"
  by (induction xs) auto

lemma set_delete_first: "set (delete_first Q xs) \<subseteq> set xs"
  by (induction xs) auto

lemma find_Some_holds: "find Q xs = Some x \<Longrightarrow> Q x \<and> x \<in> set xs"
  by (induction xs) (auto split: if_splits)

lemma owner_level: "\<not> role_insufficient r ''owner'' \<Longrightarrow> r = ''owner''"
  by (auto simp: role_insufficient_def dict_get_def ROLE_HIERARCHY_def split: if_splits)

lemma check_org_owner_Inr:
  "check_org_owner d u oid = Inr m \<Longrightarrow>
   get_active_org d oid \<noteq> None \<and> get_member d oid (u_id u) = Some m \<and> m_role m = ''owner''"
  by (auto simp: check_org_owner_def check_org_permission_def owner_level
        split: option.splits if_splits)

lemma get_active_org_in: "get_active_org d oid \<noteq> None \<Longrightarrow> oid \<in> set (map org_id (organizations d))"
  by (auto simp: get_active_org_def dest!: find_Some_holds)

lemma get_member_sound:
  "get_member d oid uid = Some m \<Longrightarrow>
   m \<in> set (members d) \<and> m_organization_id m = oid \<and> m_user_id m = uid"
  by (auto simp: get_member_def dest!: find_Some_holds)

lemma is_member_of_fun:
  "is_member_of oid uid = (\<lambda>m. m_organization_id m = oid \<and> m_user_id m = uid)"
  by (rule ext) (simp add: is_member_of_def)

lemma get_member_find: "get_member d oid uid = find (is_member_of oid uid) (members d)"
  by (simp add: get_member_def is_member_of_fun)

lemma transfer_shape:
  "snd (transfer_ownership fault oid new_owner_id current_user d) = d
   \<or> (\<exists>x1 x2.
         get_active_org d oid \<noteq> None \<and> get_member d oid (u_id current_user) = Some x1
         \<and> m_role x1 = ''owner'' \<and> get_member d oid new_owner_id = Some x2
         \<and> new_owner_id \<noteq> u_id current_user
         \<and> organizations (snd (transfer_ownership fault oid new_owner_id current_user d))
             = organizations d
         \<and> members (snd (transfer_ownership fault oid new_owner_id current_user d))
             = update_first (is_member_of oid new_owner_id) (\<lambda>m. m\<lparr>m_role := ''owner''\<rparr>)
                 (update_first (is_member_of oid (u_id current_user))
                    (\<lambda>m. m\<lparr>m_role := ''admin''\<rparr>) (members d)))"
proof (cases "check_org_owner d current_user oid")
  case (Inl e)
  then show ?thesis by (simp add: transfer_ownership_def)
next
  case (Inr x1)
  note own = check_org_owner_Inr[OF Inr]
  show ?thesis
  proof (cases "get_member d oid new_owner_id")
    case None
    with Inr show ?thesis by (simp add: transfer_ownership_def)
  next
    case (Some x2)
    from get_member_sound[OF Some] have uid: "m_user_id x2 = new_owner_id" by simp
    show ?thesis
    proof (cases "new_owner_id = u_id current_user \<or> commit_fails fault")
      case True
      with Inr Some uid show ?thesis by (auto simp: transfer_ownership_def)
    next
      case False
      with Inr Some uid own show ?thesis
        by (auto simp: transfer_ownership_def log_audit_def Let_def)
    qed
  qed
qed

lemma transfer_members_owner_count:
  assumes x1: "find (is_member_of oid cu) ms = Some x1" and r1: "m_role x1 = ''owner''"
    and x2: "find (is_member_of oid new) ms = Some x2" and ne: "new \<noteq> cu"
    and one: "length (filter (\<lambda>m. m_organization_id m = oid \<and> m_role m = ''owner'') ms) = 1"
  shows "length (filter (\<lambda>m. m_organization_id m = oo \<and> m_role m = ''owner'')
           (update_first (is_member_of oid new) (\<lambda>m. m\<lparr>m_role := ''owner''\<rparr>)
              (update_first (is_member_of oid cu) (\<lambda>m. m\<lparr>m_role := ''admin''\<rparr>) ms)))
         = length (filter (\<lambda>m. m_organization_id m = oo \<and> m_role m = ''owner'') ms)"
proof -
  let ?P = "\<lambda>m. m_organization_id m = oo \<and> m_role m = ''owner''"
  let ?ms1 = "update_first (is_member_of oid cu) (\<lambda>m. m\<lparr>m_role := ''admin''\<rparr>) ms"
  let ?ms2 = "update_first (is_member_of oid new) (\<lambda>m. m\<lparr>m_role := ''owner''\<rparr>) ?ms1"
  have q1: "m_organization_id x1 = oid" and q2: "m_organization_id x2 = oid"
    using find_Some_holds[OF x1] find_Some_holds[OF x2] by (auto simp: is_member_of_def)
  have f2: "find (is_member_of oid new) ?ms1 = Some x2"
    using x2 ne by (subst find_update_first_other) (auto simp: is_member_of_def)
  have c1: "length (filter ?P ?ms1) + (if ?P x1 then 1 else 0)
            = length (filter ?P ms) + (if ?P (x1\<lparr>m_role := ''admin''\<rparr>) then 1 else 0)"
    by (rule count_update_first[OF x1])
  have c2: "length (filter ?P ?ms2) + (if ?P x2 then 1 else 0)
            = length (filter ?P ?ms1) + (if ?P (x2\<lparr>m_role := ''owner''\<rparr>) then 1 else 0)"
    by (rule count_update_first[OF f2])
  show ?thesis
  proof (cases "oo = oid")
    case False
    with c1 c2 q1 q2 show ?thesis by simp
  next
    case True
    with c1 r1 q1 one have z: "length (filter ?P ?ms1) = 0" by simp
    have "x2 \<in> set ?ms1" using find_Some_holds[OF f2] by simp
    with z have "\<not> ?P x2" by (auto simp: filter_empty_conv)
    with c2 z True q2 one show ?thesis by simp
  qed
qed

lemma invariant_from_counts:
  assumes "single_owner d" "members_in_orgs d"
    and "organizations d' = organizations d"
    and "\<And>oo. length (owner_rows d' oo) = length (owner_rows d oo)"
    and "set (map m_organization_id (members d')) \<subseteq> set (map m_organization_id (members d))"
  shows "single_owner d' \<and> members_in_orgs d'"
proof
  show "single_owner d'"
    using assms(1,3,4) by (simp add: single_owner_def)
  show "members_in_orgs d'"
    using assms(2,3,5) by (auto simp: members_in_orgs_def)
qed

lemma transfer_preserves:
  assumes "single_owner d" "members_in_orgs d"
  shows "single_owner (snd (transfer_ownership fault oid new_owner_id current_user d))
       \<and> members_in_orgs (snd (transfer_ownership fault oid new_owner_id current_user d))"
proof -
  let ?d' = "snd (transfer_ownership fault oid new_owner_id current_user d)"
  from transfer_shape[of fault oid new_owner_id current_user d]
  consider (same) "?d' = d"
    | (moved) x1 x2 where
        "get_active_org d oid \<noteq> None" "get_member d oid (u_id current_user) = Some x1"
        "m_role x1 = ''owner''" "get_member d oid new_owner_id = Some x2"
        "new_owner_id \<noteq> u_id current_user"
        "organizations ?d' = organizations d"
        "members ?d'
             = update_first (is_member_of oid new_owner_id) (\<lambda>m. m\<lparr>m_role := ''owner''\<rparr>)
                 (update_first (is_member_of oid (u_id current_user))
                    (\<lambda>m. m\<lparr>m_role := ''admin''\<rparr>) (members d))"
    by blast
  then show ?thesis
  proof cases
    case same
    with assms show ?thesis by simp
  next
    case moved
    have f1: "find (is_member_of oid (u_id current_user)) (members d) = Some x1"
      and f2: "find (is_member_of oid new_owner_id) (members d) = Some x2"
      using moved(2,4) by (simp_all add: get_member_find)
    from get_active_org_in[OF moved(1)] assms(1)
    have one: "length (filter (\<lambda>m. m_organization_id m = oid \<and> m_role m = ''owner'') (members d)) = 1"
      by (auto simp: single_owner_def owner_rows_def)
    have cnt: "\<And>oo. length (owner_rows ?d' oo) = length (owner_rows d oo)"
      unfolding owner_rows_def moved(7)
      using transfer_members_owner_count[OF f1 moved(3) f2 moved(5) one] by simp
    have orgs: "map m_organization_id (members ?d') = map m_organization_id (members d)"
      unfolding moved(7) by (simp add: map_update_first_invariant)
    show ?thesis
      by (rule invariant_from_counts[OF assms moved(6) cnt]) (simp add: orgs)
  qed
qed

lemma remove_shape:
  "snd (remove_member fault oid uid current_user d) = d
   \<or> (\<exists>target.
         get_member d oid uid = Some target \<and> m_role target \<noteq> ''owner''
         \<and> organizations (snd (remove_member fault oid uid current_user d)) = organizations d
         \<and> members (snd (remove_member fault oid uid current_user d))
             = delete_first (is_member_of oid uid) (members d))"
proof (cases "check_org_admin d current_user oid")
  case (Inl e)
  then show ?thesis by (simp add: remove_member_def)
next
  case (Inr manager)
  show ?thesis
  proof (cases "get_member d oid uid")
    case None
    with Inr show ?thesis by (simp add: remove_member_def)
  next
    case (Some target)
    show ?thesis
    proof (cases "m_role target = ''owner'' \<or> isl (can_manage_member manager target)
                  \<or> commit_fails fault")
      case True
      with Inr Some show ?thesis
        by (auto simp: remove_member_def split: sum.splits)
    next
      case False
      with Inr Some show ?thesis
        by (auto simp: remove_member_def log_audit_def Let_def split: sum.splits)
    qed
  qed
qed

lemma remove_preserves:
  assumes "single_owner d" "members_in_orgs d"
  shows "single_owner (snd (remove_member fault oid uid current_user d))
       \<and> members_in_orgs (snd (remove_member fault oid uid current_user d))"
proof -
  let ?d' = "snd (remove_member fault oid uid current_user d)"
  from remove_shape[of fault oid uid current_user d]
  consider (same) "?d' = d"
    | (gone) target where "get_member d oid uid = Some target" "m_role target \<noteq> ''owner''"
        "organizations ?d' = organizations d"
        "members ?d' = delete_first (is_member_of oid uid) (members d)"
    by blast
  then show ?thesis
  proof cases
    case same
    with assms show ?thesis by simp
  next
    case gone
    have f: "find (is_member_of oid uid) (members d) = Some target"
      using gone(1) by (simp add: get_member_find)
    have cnt: "\<And>oo. length (owner_rows ?d' oo) = length (owner_rows d oo)"
      unfolding owner_rows_def gone(4)
      using count_delete_first[OF f, of "\<lambda>m. m_organization_id m = oo \<and> m_role m = ''owner''" for oo]
        gone(2)
      by simp
    have sub: "set (map m_organization_id (members ?d')) \<subseteq> set (map m_organization_id (members d))"
      unfolding gone(4) using set_delete_first[of "is_member_of oid uid" "members d"] by auto
    show ?thesis
      by (rule invariant_from_counts[OF assms gone(3) cnt sub])
  qed
qed

lemma create_shape:
  "snd (create_organization fault new_id name wrapped_org_key current_user d) = d
   \<or> (new_id \<notin> set (map org_id (organizations d))
       \<and> (\<exists>stored_name.
             organizations (snd (create_organization fault new_id name wrapped_org_key
                                   current_user d))
               = organizations d @ [\<lparr>org_id = new_id, org_name = stored_name,
                                      org_created_by = u_id current_user,
                                      org_deleted_at = None\<rparr>])
       \<and> members (snd (create_organization fault new_id name wrapped_org_key current_user d))
           = members d @ [\<lparr>m_organization_id = new_id, m_user_id = u_id current_user,
                            m_role = ''owner'', m_wrapped_org_key = wrapped_org_key,
                            m_invited_by = Some (u_id current_user)\<rparr>])"
  by (auto simp: create_organization_def name_not_empty_def log_audit_def Let_def)

lemma create_preserves:
  assumes "single_owner d" "members_in_orgs d"
  shows "single_owner (snd (create_organization fault new_id name wrapped_org_key current_user d))
       \<and> members_in_orgs
           (snd (create_organization fault new_id name wrapped_org_key current_user d))"
proof -
  let ?d' = "snd (create_organization fault new_id name wrapped_org_key current_user d)"
  from create_shape[of fault new_id name wrapped_org_key current_user d]
  consider (same) "?d' = d"
    | (made) stored_name where "new_id \<notin> set (map org_id (organizations d))"
        "organizations ?d'
           = organizations d @ [\<lparr>org_id = new_id, org_name = stored_name,
                                  org_created_by = u_id current_user, org_deleted_at = None\<rparr>]"
        "members ?d'
           = members d @ [\<lparr>m_organization_id = new_id, m_user_id = u_id current_user,
                            m_role = ''owner'', m_wrapped_org_key = wrapped_org_key,
                            m_invited_by = Some (u_id current_user)\<rparr>]"
    by blast
  then show ?thesis
  proof cases
    case same
    with assms show ?thesis by simp
  next
    case made
    have none: "filter (\<lambda>m. m_organization_id m = new_id \<and> m_role m = ''owner'') (members d) = []"
      using assms(2) made(1) by (auto simp: members_in_orgs_def filter_empty_conv)
    have so: "single_owner ?d'"
      unfolding single_owner_def owner_rows_def made(2,3)
      using assms(1) made(1) none
      by (auto simp: single_owner_def owner_rows_def)
    have mo: "members_in_orgs ?d'"
      unfolding members_in_orgs_def made(2,3)
      using assms(2) by (auto simp: members_in_orgs_def)
    from so mo show ?thesis ..
  qed
qed

lemma handle_preserves:
  "single_owner d \<Longrightarrow> members_in_orgs d \<Longrightarrow>
   single_owner (handle r d) \<and> members_in_orgs (handle r d)"
  by (cases r) (simp_all add: create_preserves transfer_preserves remove_preserves)

lemma serve_preserves:
  "single_owner d \<Longrightarrow> members_in_orgs d \<Longrightarrow>
   single_owner (serve rs d) \<and> members_in_orgs (serve rs d)"
proof (induction rs arbitrary: d)
  case Nil
  then show ?case by simp
next
  case (Cons r rs)
  from handle_preserves[OF Cons.prems, of r] Cons.IH[of "handle r d"]
  show ?case by simp
qed

lemma transfer_success:
  assumes "fst (transfer_ownership fault oid new_owner_id current_user d) = Inr row"
  shows "\<exists>x1 x2. get_member d oid (u_id current_user) = Some x1 \<and> m_role x1 = ''owner''
           \<and> get_member d oid new_owner_id = Some x2 \<and> new_owner_id \<noteq> u_id current_user
           \<and> get_active_org d oid \<noteq> None
           \<and> row = x2\<lparr>m_role := ''owner''\<rparr>
           \<and> get_member (snd (transfer_ownership fault oid new_owner_id current_user d)) oid
                (u_id current_user) = Some (x1\<lparr>m_role := ''admin''\<rparr>)
           \<and> get_member (snd (transfer_ownership fault oid new_owner_id current_user d)) oid
                new_owner_id = Some (x2\<lparr>m_role := ''owner''\<rparr>)"
proof -
  from assms obtain x1 where c: "check_org_owner d current_user oid = Inr x1"
    by (cases "check_org_owner d current_user oid") (auto simp: transfer_ownership_def)
  note own = check_org_owner_Inr[OF c]
  from assms c obtain x2 where g: "get_member d oid new_owner_id = Some x2"
    by (cases "get_member d oid new_owner_id") (auto simp: transfer_ownership_def)
  from get_member_sound[OF g] have uid: "m_user_id x2 = new_owner_id" by simp
  from assms c g uid have ne: "new_owner_id \<noteq> u_id current_user" and nf: "\<not> commit_fails fault"
    by (auto simp: transfer_ownership_def split: if_splits)
  let ?ms1 = "update_first (is_member_of oid (u_id current_user))
                (\<lambda>m. m\<lparr>m_role := ''admin''\<rparr>) (members d)"
  let ?ms2 = "update_first (is_member_of oid new_owner_id) (\<lambda>m. m\<lparr>m_role := ''owner''\<rparr>) ?ms1"
  have ms: "members (snd (transfer_ownership fault oid new_owner_id current_user d)) = ?ms2"
    and row: "row = x2\<lparr>m_role := ''owner''\<rparr>"
    using assms c g uid ne nf
    by (auto simp: transfer_ownership_def log_audit_def Let_def split: if_splits)
  have "find (is_member_of oid (u_id current_user)) ?ms1
        = map_option (\<lambda>m. m\<lparr>m_role := ''admin''\<rparr>)
            (find (is_member_of oid (u_id current_user)) (members d))"
    by (rule find_update_first_same) (simp add: is_member_of_def)
  then have f1: "find (is_member_of oid (u_id current_user)) ?ms1 = Some (x1\<lparr>m_role := ''admin''\<rparr>)"
    using own by (simp add: get_member_find)
  have f1': "find (is_member_of oid (u_id current_user)) ?ms2 = Some (x1\<lparr>m_role := ''admin''\<rparr>)"
    using f1 ne by (subst find_update_first_other) (auto simp: is_member_of_def)
  have f2: "find (is_member_of oid new_owner_id) ?ms1 = Some x2"
    using g ne by (subst find_update_first_other) (auto simp: is_member_of_def get_member_find)
  have "find (is_member_of oid new_owner_id) ?ms2
        = map_option (\<lambda>m. m\<lparr>m_role := ''owner''\<rparr>) (find (is_member_of oid new_owner_id) ?ms1)"
    by (rule find_update_first_same) (simp add: is_member_of_def)
  then have f2': "find (is_member_of oid new_owner_id) ?ms2 = Some (x2\<lparr>m_role := ''owner''\<rparr>)"
    using f2 by simp
  show ?thesis
    using own g ne row f1' f2' by (simp add: get_member_find ms)
qed

lemma remove_owner_refused:
  assumes "get_member d oid uid = Some target" "m_role target = ''owner''"
  shows "isl (fst (remove_member fault oid uid current_user d))
       \<and> snd (remove_member fault oid uid current_user d) = d
       \<and> (\<forall>manager. check_org_admin d current_user oid = Inr manager \<longrightarrow>
             fst (remove_member fault oid uid current_user d) = Inl CannotRemoveOwner)"
  using assms by (auto simp: remove_member_def split: sum.splits)

lemma create_success:
  assumes "fst (create_organization fault new_id name wrapped_org_key current_user d) = Inr org"
    and "members_in_orgs d"
  shows "org_id org = new_id
       \<and> owner_rows (snd (create_organization fault new_id name wrapped_org_key current_user d))
           new_id
         = [\<lparr>m_organization_id = new_id, m_user_id = u_id current_user,
             m_role = ''owner'', m_wrapped_org_key = wrapped_org_key,
             m_invited_by = Some (u_id current_user)\<rparr>]"
proof -
  from assms(1) have fresh: "new_id \<notin> set (map org_id (organizations d))"
    and nf: "\<not> commit_fails fault" and na: "fault \<noteq> FaultAtAudit"
    and ok: "name \<noteq> []" "wrapped_org_key \<noteq> []" "strip name \<noteq> []"
    by (auto simp: create_organization_def name_not_empty_def log_audit_def Let_def
          split: if_splits)
  have none: "filter (\<lambda>m. m_organization_id m = new_id \<and> m_role m = ''owner'') (members d) = []"
    using assms(2) fresh by (auto simp: members_in_orgs_def filter_empty_conv)
  show ?thesis
    using assms(1) fresh nf na none ok
    by (auto simp: create_organization_def name_not_empty_def log_audit_def Let_def
          owner_rows_def)
qed

text \<open>
  Claim C2. In a database where every organization has exactly one membership row with
  role owner (and every membership row belongs to a stored organization), any sequence of
  create-organization, transfer-ownership and remove-member requests, whoever sends them
  and whatever storage fault strikes, leaves a database with the same property; so does
  any such sequence from the empty database. A successful creation makes the creator the
  one owner of the new organization. A successful transfer turns the current owner's row
  into admin and the designated member's row into owner, in one commit. Removing a
  membership whose role is owner is always refused and changes nothing.
\<close>

theorem single_owner_invariant:
  "(single_owner d \<and> members_in_orgs d \<longrightarrow>
      single_owner (serve rs d) \<and> members_in_orgs (serve rs d))
   \<and> (organizations d = [] \<and> members d = [] \<longrightarrow> single_owner (serve rs d))
   \<and> (members_in_orgs d
        \<and> fst (create_organization fault new_id name wrapped_org_key current_user d) = Inr org \<longrightarrow>
      org_id org = new_id
      \<and> owner_rows (snd (create_organization fault new_id name wrapped_org_key current_user d))
           new_id
         = [\<lparr>m_organization_id = new_id, m_user_id = u_id current_user,
             m_role = ''owner'', m_wrapped_org_key = wrapped_org_key,
             m_invited_by = Some (u_id current_user)\<rparr>])
   \<and> (fst (transfer_ownership fault oid new_owner_id current_user d) = Inr row \<longrightarrow>
      (\<exists>x1 x2. get_member d oid (u_id current_user) = Some x1 \<and> m_role x1 = ''owner''
           \<and> get_member d oid new_owner_id = Some x2 \<and> new_owner_id \<noteq> u_id current_user
           \<and> get_member (snd (transfer_ownership fault oid new_owner_id current_user d)) oid
                (u_id current_user) = Some (x1\<lparr>m_role := ''admin''\<rparr>)
           \<and> get_member (snd (transfer_ownership fault oid new_owner_id current_user d)) oid
                new_owner_id = Some (x2\<lparr>m_role := ''owner''\<rparr>)))
   \<and> (get_member d oid uid = Some target \<and> m_role target = ''owner'' \<longrightarrow>
      isl (fst (remove_member fault oid uid current_user d))
      \<and> snd (remove_member fault oid uid current_user d) = d
      \<and> (\<forall>manager. check_org_admin d current_user oid = Inr manager \<longrightarrow>
             fst (remove_member fault oid uid current_user d) = Inl CannotRemoveOwner))"
proof -
  have empty: "single_owner (serve rs d)" if "organizations d = []" "members d = []"
  proof -
    from that have "single_owner d" "members_in_orgs d"
      by (simp_all add: single_owner_def members_in_orgs_def)
    then show ?thesis using serve_preserves by blast
  qed
  have tr: "\<exists>x1 x2. get_member d oid (u_id current_user) = Some x1 \<and> m_role x1 = ''owner''
           \<and> get_member d oid new_owner_id = Some x2 \<and> new_owner_id \<noteq> u_id current_user
           \<and> get_member (snd (transfer_ownership fault oid new_owner_id current_user d)) oid
                (u_id current_user) = Some (x1\<lparr>m_role := ''admin''\<rparr>)
           \<and> get_member (snd (transfer_ownership fault oid new_owner_id current_user d)) oid
                new_owner_id = Some (x2\<lparr>m_role := ''owner''\<rparr>)"
    if "fst (transfer_ownership fault oid new_owner_id current_user d) = Inr row"
    using transfer_success[OF that] by blast
  show ?thesis
    using serve_preserves[of d rs] empty create_success[of fault new_id name wrapped_org_key current_user d org]
      tr remove_owner_refused[of d oid uid target fault current_user]
    by blast
qed

theorem single_owner_invariant_witness:
  "single_owner db0 \<and> members_in_orgs db0
   \<and> single_owner
        (serve [TransferOwnership NoFault 1 2 userA, RemoveMember NoFault 1 2 userA,
                CreateOrganization FaultAtAudit 7 ''Team'' ''keyC'' userC,
                RemoveMember NoFault 1 4 userB] db0)
   \<and> map (\<lambda>m. (m_organization_id m, m_user_id m, m_role m))
        (members
          (serve [TransferOwnership NoFault 1 2 userA, RemoveMember NoFault 1 2 userA,
                  CreateOrganization FaultAtAudit 7 ''Team'' ''keyC'' userC,
                  RemoveMember NoFault 1 4 userB] db0))
      = [(1, 1, ''admin''), (1, 2, ''owner''), (7, 3, ''owner'')]
   \<and> fst (remove_member NoFault 1 1 userA db0) = Inl CannotRemoveOwner
   \<and> snd (remove_member NoFault 1 1 userA db0) = db0"
proof -
  let ?rs = "[TransferOwnership NoFault 1 2 userA, RemoveMember NoFault 1 2 userA,
              CreateOrganization FaultAtAudit 7 ''Team'' ''keyC'' userC,
              RemoveMember NoFault 1 4 userB]"
  have inv0: "single_owner db0" "members_in_orgs db0"
    by (simp_all add: single_owner_def members_in_orgs_def owner_rows_def example_defs)
  have tgt: "get_member db0 1 1 = Some memberA" "m_role memberA = ''owner''"
    by (simp_all add: get_member_def example_defs)
  have adm: "check_org_admin db0 userA 1 = Inr memberA"
    by (simp add: check_org_admin_def check_org_permission_def get_active_org_def get_member_def
          role_insufficient_def role_level_simps example_defs)
  have run: "map (\<lambda>m. (m_organization_id m, m_user_id m, m_role m)) (members (serve ?rs db0))
             = [(1, 1, ''admin''), (1, 2, ''owner''), (7, 3, ''owner'')]"
    by (simp add: transfer_ownership_def remove_member_def create_organization_def
          name_not_empty_def strip_def isspace_def
          check_org_owner_def check_org_admin_def check_org_permission_def get_active_org_def
          get_member_def role_insufficient_def role_level_simps can_manage_member_def
          commit_fails_def log_audit_def is_member_of_def Let_def example_defs)
  show ?thesis
    using single_owner_invariant[where d=db0 and rs="?rs" and oid=1 and uid=1 and target=memberA
        and fault=NoFault and current_user=userA] inv0 tgt adm run
    by simp
qed


section \<open>Key rotation\<close>

lemma rotate_member_keys_generic:
  "rotate_member_keys oid ks (ms, n) =
   apply_updates (is_member_of oid) (\<lambda>v m. m\<lparr>m_wrapped_org_key := v\<rparr>)
     (map (\<lambda>k. (mk_user_id k, mk_wrapped_org_key k)) ks) (ms, n)"
  by (induction ks arbitrary: ms n) (auto split: option.splits)

lemma rotate_account_deks_generic:
  "rotate_account_deks oid (map (\<lambda>(a, v). (AccountId a, v)) us) (accs, n) =
   Inr (apply_updates (is_org_account oid) (\<lambda>v a. a\<lparr>acc_encrypted_dek := Some v\<rparr>) us (accs, n))"
  by (induction us arbitrary: accs n) (auto split: option.splits)

lemma rotate_account_deks_malformed:
  "(NotAUuid account_id_str, v) \<in> set us \<Longrightarrow>
   rotate_account_deks oid us (accs, n) = Inl StorageError"
proof (induction us arbitrary: accs n)
  case Nil
  then show ?case by simp
next
  case (Cons u us)
  obtain k w where u: "u = (k, w)" by (cases u)
  show ?case
  proof (cases k)
    case (NotAUuid t)
    then show ?thesis by (simp add: u)
  next
    case (AccountId a)
    with Cons.prems u have "(NotAUuid account_id_str, v) \<in> set us" by auto
    from Cons.IH[OF this] AccountId show ?thesis
      by (simp add: u split: option.splits)
  qed
qed

lemma exists_update_first:
  "(\<And>x. R (f x) = R x) \<Longrightarrow> (\<exists>x\<in>set (update_first Q f xs). R x) = (\<exists>x\<in>set xs. R x)"
  by (induction xs) auto

lemma find_None_exists: "(find Q xs = None) = (\<not> (\<exists>x\<in>set xs. Q x))"
  by (auto simp: find_None_iff)

lemma apply_updates_count:
  assumes pres: "\<And>k v x. Q k (st v x) = Q k x"
  shows "snd (apply_updates Q st us (xs, n))
         = n + length (filter (\<lambda>(k, v). \<exists>x\<in>set xs. Q k x) us)"
proof (induction us arbitrary: xs n)
  case Nil
  then show ?case by simp
next
  case (Cons u us)
  obtain k v where u: "u = (k, v)" by (cases u)
  show ?case
  proof (cases "find (Q k) xs")
    case None
    then have nex: "\<not> (\<exists>x\<in>set xs. Q k x)" using find_None_exists[of "Q k" xs] by simp
    show ?thesis using None nex Cons.IH[of xs n] by (simp add: u)
  next
    case (Some x)
    then have ex: "\<exists>x\<in>set xs. Q k x" using find_None_exists[of "Q k" xs] by auto
    have same: "(\<exists>x\<in>set (update_first (Q k) (st v) xs). Q k' x) = (\<exists>x\<in>set xs. Q k' x)" for k'
      by (rule exists_update_first) (rule pres)
    show ?thesis
      using Some ex Cons.IH[of "update_first (Q k) (st v) xs" "n + 1"]
      by (simp add: u same)
  qed
qed

lemma apply_updates_skip:
  assumes pres: "\<And>k v x. Q k (st v x) = Q k x"
  shows "apply_updates Q st us (xs, n)
         = apply_updates Q st (filter (\<lambda>(k, v). \<exists>x\<in>set xs. Q k x) us) (xs, n)"
proof (induction us arbitrary: xs n)
  case Nil
  then show ?case by simp
next
  case (Cons u us)
  obtain k v where u: "u = (k, v)" by (cases u)
  show ?case
  proof (cases "find (Q k) xs")
    case None
    then have nex: "\<not> (\<exists>x\<in>set xs. Q k x)" using find_None_exists[of "Q k" xs] by simp
    show ?thesis using None nex Cons.IH[of xs n] by (simp add: u)
  next
    case (Some x)
    then have ex: "\<exists>x\<in>set xs. Q k x" using find_None_exists[of "Q k" xs] by auto
    have same: "(\<exists>x\<in>set (update_first (Q k) (st v) xs). Q k' x) = (\<exists>x\<in>set xs. Q k' x)" for k'
      by (rule exists_update_first) (rule pres)
    show ?thesis
      using Some ex Cons.IH[of "update_first (Q k) (st v) xs" "n + 1"]
      by (simp add: u same)
  qed
qed

lemma apply_updates_map:
  assumes er: "\<And>v x. g (st v x) = g x"
  shows "map g (fst (apply_updates Q st us (xs, n))) = map g xs"
proof (induction us arbitrary: xs n)
  case Nil
  then show ?case by simp
next
  case (Cons u us)
  obtain k v where u: "u = (k, v)" by (cases u)
  have "map g (update_first (Q k) (st v) xs) = map g xs"
    by (rule map_update_first_invariant) (rule er)
  then show ?case
    using Cons.IH[of xs n] Cons.IH[of "update_first (Q k) (st v) xs" "n + 1"]
    by (simp add: u split: option.splits)
qed

lemma update_first_nth_other:
  "i < length xs \<Longrightarrow> \<not> Q (xs ! i) \<Longrightarrow> update_first Q f xs ! i = xs ! i"
proof (induction xs arbitrary: i)
  case Nil
  then show ?case by simp
next
  case (Cons x xs)
  show ?case
  proof (cases i)
    case 0
    with Cons.prems show ?thesis by simp
  next
    case (Suc j)
    with Cons.prems Cons.IH[of j] show ?thesis by simp
  qed
qed

lemma apply_updates_untouched:
  assumes "i < length xs" and "\<forall>k\<in>fst ` set us. \<not> Q k (xs ! i)"
  shows "fst (apply_updates Q st us (xs, n)) ! i = xs ! i"
  using assms
proof (induction us arbitrary: xs n)
  case Nil
  then show ?case by simp
next
  case (Cons u us)
  obtain k v where u: "u = (k, v)" by (cases u)
  from Cons.prems have nk: "\<not> Q k (xs ! i)" and rest: "\<forall>k\<in>fst ` set us. \<not> Q k (xs ! i)"
    by (auto simp: u)
  have same: "update_first (Q k) (st v) xs ! i = xs ! i"
    using Cons.prems(1) nk by (rule update_first_nth_other)
  have len: "i < length (update_first (Q k) (st v) xs)"
    using Cons.prems(1) by (simp add: length_update_first)
  show ?case
    using Cons.IH[OF Cons.prems(1) rest, of n]
      Cons.IH[OF len, of "n + 1"] rest same
    by (simp add: u split: option.splits)
qed

lemma apply_updates_find:
  assumes pres: "\<And>k v x. Q k (st v x) = Q k x"
    and disj: "\<And>k k' x. Q k x \<Longrightarrow> Q k' x \<Longrightarrow> k = k'"
    and over: "\<And>v v' x. st v (st v' x) = st v x"
  shows "find (Q k) (fst (apply_updates Q st us (xs, n)))
         = (case find (Q k) xs of
              None \<Rightarrow> None
            | Some x \<Rightarrow> Some (case filter (\<lambda>(k', v). k' = k) us of
                                [] \<Rightarrow> x
                              | u # us' \<Rightarrow> st (snd (last (u # us'))) x))"
proof (induction us arbitrary: xs n)
  case Nil
  then show ?case by (simp split: option.splits)
next
  case (Cons u us)
  obtain k' v where u: "u = (k', v)" by (cases u)
  show ?case
  proof (cases "find (Q k') xs")
    case None
    show ?thesis
    proof (cases "k' = k")
      case True
      with None show ?thesis using Cons.IH[of xs n] by (simp add: u)
    next
      case False
      with None show ?thesis using Cons.IH[of xs n] by (simp add: u split: option.splits)
    qed
  next
    case (Some x')
    let ?xs' = "update_first (Q k') (st v) xs"
    show ?thesis
    proof (cases "k' = k")
      case True
      have "find (Q k) ?xs' = map_option (st v) (find (Q k) xs)"
        unfolding True[symmetric] by (rule find_update_first_same) (simp add: pres)
      with Some True have f: "find (Q k) ?xs' = Some (st v x')" by simp
      show ?thesis
        using Some True f Cons.IH[of ?xs' "n + 1"]
        by (simp add: u over split: list.splits)
    next
      case False
      have f: "find (Q k) ?xs' = find (Q k) xs"
        by (rule find_update_first_other) (use pres disj False in auto)
      show ?thesis
        using Some False f Cons.IH[of ?xs' "n + 1"]
        by (simp add: u split: option.splits)
    qed
  qed
qed

lemma rotate_shape:
  assumes "check_org_owner d current_user oid = Inr owner" and "\<not> commit_fails fault"
    and "account_deks rd = map (\<lambda>(a, v). (AccountId a, v)) deks"
  shows "members (snd (rotate_organization_keys fault oid rd current_user d))
           = fst (rotate_member_keys oid (member_keys rd) (members d, 0))
       \<and> accounts (snd (rotate_organization_keys fault oid rd current_user d))
           = fst (apply_updates (is_org_account oid) (\<lambda>v a. a\<lparr>acc_encrypted_dek := Some v\<rparr>)
                    deks (accounts d, 0))
       \<and> users (snd (rotate_organization_keys fault oid rd current_user d)) = users d
       \<and> organizations (snd (rotate_organization_keys fault oid rd current_user d))
           = organizations d
       \<and> account_permissions (snd (rotate_organization_keys fault oid rd current_user d))
           = account_permissions d
       \<and> invitations (snd (rotate_organization_keys fault oid rd current_user d))
           = invitations d
       \<and> fst (rotate_organization_keys fault oid rd current_user d)
           = (if fault = FaultAtAudit then Inl KeyRotationFailed
              else Inr \<lparr>kr_accounts_updated =
                         snd (apply_updates (is_org_account oid)
                                (\<lambda>v a. a\<lparr>acc_encrypted_dek := Some v\<rparr>) deks (accounts d, 0)),
                       kr_members_updated =
                         snd (rotate_member_keys oid (member_keys rd) (members d, 0))\<rparr>)"
proof -
  from check_org_owner_Inr[OF assms(1)] obtain org where "get_active_org d oid = Some org"
    by auto
  then show ?thesis
    using assms
    by (simp add: rotate_organization_keys_def log_audit_def Let_def rotate_account_deks_generic)
qed

lemma rotate_commit_fails:
  assumes "check_org_owner d current_user oid = Inr owner" and "commit_fails fault"
  shows "rotate_organization_keys fault oid rd current_user d = (Inl KeyRotationFailed, d)"
proof -
  from check_org_owner_Inr[OF assms(1)] obtain org where "get_active_org d oid = Some org"
    by auto
  then show ?thesis
    using assms by (simp add: rotate_organization_keys_def)
qed

text \<open>
  One key of \<^verbatim>\<open>account_deks\<close> that is not the text of a UUID makes the whole
  rotation fail, with nothing applied, wherever it stands in the dict.
\<close>

lemma rotate_malformed_key:
  assumes "check_org_owner d current_user oid = Inr owner"
    and "(NotAUuid account_id_str, v) \<in> set (account_deks rd)"
  shows "rotate_organization_keys fault oid rd current_user d = (Inl KeyRotationFailed, d)"
proof -
  from check_org_owner_Inr[OF assms(1)] obtain org where "get_active_org d oid = Some org"
    by auto
  then show ?thesis
    using assms(1) rotate_account_deks_malformed[OF assms(2), of oid "accounts d" 0]
    by (simp add: rotate_organization_keys_def)
qed

lemma member_pairs_filter:
  "filter (\<lambda>(k, v). R k) (map (\<lambda>k. (mk_user_id k, mk_wrapped_org_key k)) ks)
   = map (\<lambda>k. (mk_user_id k, mk_wrapped_org_key k)) (filter (\<lambda>k. R (mk_user_id k)) ks)"
  by (induction ks) auto

lemma account_pairs_filter:
  "filter (\<lambda>(k, v). R k v) (map (\<lambda>(a, v). (AccountId a, v)) us)
   = map (\<lambda>(a, v). (AccountId a, v)) (filter (\<lambda>(a, v). R (AccountId a) v) us)"
  by (induction us) auto

lemma member_keys_count:
  "snd (rotate_member_keys oid ks (ms, n))
   = n + length (filter (\<lambda>k. \<exists>m\<in>set ms. is_member_of oid (mk_user_id k) m) ks)"
  unfolding rotate_member_keys_generic
  by (subst apply_updates_count) (simp_all add: is_member_of_def member_pairs_filter)

lemma account_deks_count:
  "snd (apply_updates (is_org_account oid) (\<lambda>v a. a\<lparr>acc_encrypted_dek := Some v\<rparr>) us (accs, n))
   = n + length (filter (\<lambda>(aid, dek). \<exists>a\<in>set accs. is_org_account oid aid a) us)"
  by (subst apply_updates_count) (simp_all add: is_org_account_def)

lemma member_keys_skip:
  "rotate_member_keys oid ks (ms, n)
   = rotate_member_keys oid
       (filter (\<lambda>k. \<exists>m\<in>set ms. is_member_of oid (mk_user_id k) m) ks) (ms, n)"
  unfolding rotate_member_keys_generic
  by (subst apply_updates_skip) (simp_all add: is_member_of_def member_pairs_filter)

lemma account_deks_skip:
  "rotate_account_deks oid (map (\<lambda>(a, v). (AccountId a, v)) us) (accs, n)
   = rotate_account_deks oid
       (map (\<lambda>(a, v). (AccountId a, v))
          (filter (\<lambda>(aid, dek). \<exists>a\<in>set accs. is_org_account oid aid a) us)) (accs, n)"
  unfolding rotate_account_deks_generic
  by (subst apply_updates_skip) (simp_all add: is_org_account_def)

lemma member_keys_find:
  "find (is_member_of oid u) (fst (rotate_member_keys oid ks (ms, n)))
   = (case find (is_member_of oid u) ms of
        None \<Rightarrow> None
      | Some m \<Rightarrow> Some (case filter (\<lambda>k. mk_user_id k = u) ks of
                          [] \<Rightarrow> m
                        | k # ks' \<Rightarrow> m\<lparr>m_wrapped_org_key := mk_wrapped_org_key (last (k # ks'))\<rparr>))"
proof -
  let ?p = "\<lambda>k. (mk_user_id k, mk_wrapped_org_key k)"
  have g: "find (is_member_of oid u) (fst (rotate_member_keys oid ks (ms, n)))
        = (case find (is_member_of oid u) ms of
             None \<Rightarrow> None
           | Some m \<Rightarrow> Some (case filter (\<lambda>(k', v). k' = u) (map ?p ks) of
                               [] \<Rightarrow> m
                             | x # xs \<Rightarrow> m\<lparr>m_wrapped_org_key := snd (last (x # xs))\<rparr>))"
    unfolding rotate_member_keys_generic
    by (rule apply_updates_find) (auto simp: is_member_of_def)
  have t: "(case filter (\<lambda>(k', v). k' = u) (map ?p ks) of
              [] \<Rightarrow> m
            | x # xs \<Rightarrow> m\<lparr>m_wrapped_org_key := snd (last (x # xs))\<rparr>)
         = (case filter (\<lambda>k. mk_user_id k = u) ks of
              [] \<Rightarrow> m
            | k # ks' \<Rightarrow> m\<lparr>m_wrapped_org_key := mk_wrapped_org_key (last (k # ks'))\<rparr>)"
    for m :: OrganizationMember
  proof (cases "filter (\<lambda>k. mk_user_id k = u) ks")
    case Nil
    then show ?thesis by (simp add: member_pairs_filter)
  next
    case (Cons k ks')
    then have "filter (\<lambda>(k', v). k' = u) (map ?p ks) = map ?p (k # ks')"
      by (simp add: member_pairs_filter)
    moreover have "snd (last (map ?p (k # ks'))) = mk_wrapped_org_key (last (k # ks'))"
      by (subst last_map) simp_all
    ultimately show ?thesis using Cons by simp
  qed
  show ?thesis unfolding g by (simp add: t split: option.splits)
qed

lemma account_deks_find:
  "find (is_org_account oid aid)
     (fst (apply_updates (is_org_account oid) (\<lambda>v a. a\<lparr>acc_encrypted_dek := Some v\<rparr>) us
             (accs, n)))
   = (case find (is_org_account oid aid) accs of
        None \<Rightarrow> None
      | Some a \<Rightarrow> Some (case filter (\<lambda>(i, v). i = aid) us of
                          [] \<Rightarrow> a
                        | x # xs \<Rightarrow> a\<lparr>acc_encrypted_dek := Some (snd (last (x # xs)))\<rparr>))"
  by (rule apply_updates_find) (auto simp: is_org_account_def)

text \<open>
  What \<^verbatim>\<open>rotate_organization_keys\<close> does for an owner and a request whose
  \<^verbatim>\<open>account_deks\<close> keys are all texts of UUIDs (the list \<open>deks\<close>). A member key
  update is applied only when a membership row of this organization and user exists, an
  account DEK update only when a live account of this organization with this id exists;
  every other update is skipped without failing (the outcome is that of the request with
  the misses left out); the returned counts are the numbers of updates applied. What is
  applied: the row found for a user (account) ends with the last key supplied for it,
  rows that no update addresses are untouched, no row is added or removed and no other
  column or table changes. All updates are committed in one commit: when the operation
  fails while the updates are applied or at that commit, the database is unchanged.
\<close>

lemma rotate_keys_well_formed:
  assumes "check_org_owner d current_user oid = Inr owner"
    and "account_deks rd = map (\<lambda>(a, v). (AccountId a, v)) deks"
  shows "(fault = NoFault \<longrightarrow>
            fst (rotate_organization_keys fault oid rd current_user d) =
              Inr \<lparr>kr_accounts_updated =
                     length (filter (\<lambda>(aid, dek). \<exists>a\<in>set (accounts d). is_org_account oid aid a)
                               deks),
                   kr_members_updated =
                     length (filter (\<lambda>k. \<exists>m\<in>set (members d). is_member_of oid (mk_user_id k) m)
                               (member_keys rd))\<rparr>)
       \<and> rotate_organization_keys fault oid rd current_user d =
           rotate_organization_keys fault oid
             (rd\<lparr>member_keys :=
                    filter (\<lambda>k. \<exists>m\<in>set (members d). is_member_of oid (mk_user_id k) m)
                      (member_keys rd),
                  account_deks :=
                    map (\<lambda>(a, v). (AccountId a, v))
                      (filter (\<lambda>(aid, dek). \<exists>a\<in>set (accounts d). is_org_account oid aid a)
                         deks)\<rparr>)
             current_user d
       \<and> (\<not> commit_fails fault \<longrightarrow>
            (\<forall>u m. get_member d oid u = Some m \<longrightarrow>
               get_member (snd (rotate_organization_keys fault oid rd current_user d)) oid u =
                 Some (case filter (\<lambda>k. mk_user_id k = u) (member_keys rd) of
                         [] \<Rightarrow> m
                       | k # ks \<Rightarrow> m\<lparr>m_wrapped_org_key := mk_wrapped_org_key (last (k # ks))\<rparr>))
          \<and> (\<forall>aid a. find (is_org_account oid aid) (accounts d) = Some a \<longrightarrow>
               find (is_org_account oid aid)
                 (accounts (snd (rotate_organization_keys fault oid rd current_user d))) =
                 Some (case filter (\<lambda>(i, v). i = aid) deks of
                         [] \<Rightarrow> a
                       | x # xs \<Rightarrow> a\<lparr>acc_encrypted_dek := Some (snd (last (x # xs)))\<rparr>))
          \<and> (\<forall>i<length (members d).
                (\<forall>k\<in>set (member_keys rd). \<not> is_member_of oid (mk_user_id k) (members d ! i)) \<longrightarrow>
                members (snd (rotate_organization_keys fault oid rd current_user d)) ! i
                  = members d ! i)
          \<and> (\<forall>i<length (accounts d).
                (\<forall>aid\<in>fst ` set deks. \<not> is_org_account oid aid (accounts d ! i)) \<longrightarrow>
                accounts (snd (rotate_organization_keys fault oid rd current_user d)) ! i
                  = accounts d ! i)
          \<and> map (\<lambda>m. m\<lparr>m_wrapped_org_key := []\<rparr>)
                (members (snd (rotate_organization_keys fault oid rd current_user d)))
              = map (\<lambda>m. m\<lparr>m_wrapped_org_key := []\<rparr>) (members d)
          \<and> map (\<lambda>a. a\<lparr>acc_encrypted_dek := None\<rparr>)
                (accounts (snd (rotate_organization_keys fault oid rd current_user d)))
              = map (\<lambda>a. a\<lparr>acc_encrypted_dek := None\<rparr>) (accounts d)
          \<and> users (snd (rotate_organization_keys fault oid rd current_user d)) = users d
          \<and> organizations (snd (rotate_organization_keys fault oid rd current_user d))
              = organizations d
          \<and> account_permissions (snd (rotate_organization_keys fault oid rd current_user d))
              = account_permissions d
          \<and> invitations (snd (rotate_organization_keys fault oid rd current_user d))
              = invitations d)
       \<and> (commit_fails fault \<longrightarrow>
            rotate_organization_keys fault oid rd current_user d = (Inl KeyRotationFailed, d))"
proof -
  let ?R = "rotate_organization_keys fault oid rd current_user d"
  let ?hm = "\<lambda>k. \<exists>m\<in>set (members d). is_member_of oid (mk_user_id k) m"
  let ?ha = "\<lambda>(aid, dek). \<exists>a\<in>set (accounts d). is_org_account oid aid a"
  note shape0 = rotate_shape[OF assms(1) _ assms(2), of fault]
  from check_org_owner_Inr[OF assms(1)] obtain org where org: "get_active_org d oid = Some org"
    by auto
  have counts: "fault = NoFault \<Longrightarrow>
            fst ?R = Inr \<lparr>kr_accounts_updated = length (filter ?ha deks),
                         kr_members_updated = length (filter ?hm (member_keys rd))\<rparr>"
    using shape0
    by (simp add: commit_fails_def member_keys_count account_deks_count)
  have skip: "?R = rotate_organization_keys fault oid
             (rd\<lparr>member_keys := filter ?hm (member_keys rd),
                  account_deks := map (\<lambda>(a, v). (AccountId a, v)) (filter ?ha deks)\<rparr>)
             current_user d"
    using assms org
      member_keys_skip[of oid "member_keys rd" "members d" 0]
      apply_updates_skip[of "is_org_account oid" "\<lambda>v a. a\<lparr>acc_encrypted_dek := Some v\<rparr>"
        deks "accounts d" 0]
    by (simp add: rotate_organization_keys_def rotate_account_deks_generic is_org_account_def)
  have applied: "\<not> commit_fails fault \<Longrightarrow>
            (\<forall>u m. get_member d oid u = Some m \<longrightarrow>
               get_member (snd ?R) oid u =
                 Some (case filter (\<lambda>k. mk_user_id k = u) (member_keys rd) of
                         [] \<Rightarrow> m
                       | k # ks \<Rightarrow> m\<lparr>m_wrapped_org_key := mk_wrapped_org_key (last (k # ks))\<rparr>))
          \<and> (\<forall>aid a. find (is_org_account oid aid) (accounts d) = Some a \<longrightarrow>
               find (is_org_account oid aid) (accounts (snd ?R)) =
                 Some (case filter (\<lambda>(i, v). i = aid) deks of
                         [] \<Rightarrow> a
                       | x # xs \<Rightarrow> a\<lparr>acc_encrypted_dek := Some (snd (last (x # xs)))\<rparr>))"
    using shape0
    by (simp add: get_member_find member_keys_find account_deks_find)
  have untouched: "\<not> commit_fails fault \<Longrightarrow>
          (\<forall>i<length (members d).
                (\<forall>k\<in>set (member_keys rd). \<not> is_member_of oid (mk_user_id k) (members d ! i)) \<longrightarrow>
                members (snd ?R) ! i = members d ! i)
          \<and> (\<forall>i<length (accounts d).
                (\<forall>aid\<in>fst ` set deks. \<not> is_org_account oid aid (accounts d ! i)) \<longrightarrow>
                accounts (snd ?R) ! i = accounts d ! i)"
    using shape0
    by (auto simp: rotate_member_keys_generic intro!: apply_updates_untouched)
  have shape: "\<not> commit_fails fault \<Longrightarrow>
          map (\<lambda>m. m\<lparr>m_wrapped_org_key := []\<rparr>) (members (snd ?R))
              = map (\<lambda>m. m\<lparr>m_wrapped_org_key := []\<rparr>) (members d)
          \<and> map (\<lambda>a. a\<lparr>acc_encrypted_dek := None\<rparr>) (accounts (snd ?R))
              = map (\<lambda>a. a\<lparr>acc_encrypted_dek := None\<rparr>) (accounts d)
          \<and> users (snd ?R) = users d \<and> organizations (snd ?R) = organizations d
          \<and> account_permissions (snd ?R) = account_permissions d
          \<and> invitations (snd ?R) = invitations d"
    using shape0
    by (simp add: rotate_member_keys_generic apply_updates_map)
  have fails: "commit_fails fault \<Longrightarrow> ?R = (Inl KeyRotationFailed, d)"
    by (rule rotate_commit_fails[OF assms(1)])
  show ?thesis
    using counts skip applied untouched shape fails by blast
qed

text \<open>
  Claim C4, at the inputs where the code departs from it. A is the owner of organization
  1; the request carries a new key for member B and a new DEK for account 10, besides
  entries that address no existing member and no account of the organization. Without a
  fault the rotation succeeds,
  skips the misses and counts one member and one account. (1) With a storage fault at
  the audit entry the handler has already committed: it answers with the 500 "Key
  rotation failed", and B's wrapped key and account 10's DEK have changed, where the
  claim has a failed rotation change nothing. (2) With a key in \<^verbatim>\<open>account_deks\<close>
  that is not the text of a UUID the query raises: the rotation fails and account 10's
  valid update is not applied, where the claim has every miss skipped without failing.
\<close>

theorem rotate_keys_failing_inputs:
  "check_org_owner db0 userA 1 = Inr memberA
   \<and> map m_wrapped_org_key (members db0) = [''keyA'', ''keyB'', ''keyD'']
   \<and> map acc_encrypted_dek (accounts db0) = [Some ''dekX'', Some ''dekY'']
   \<and> fst (rotate_organization_keys NoFault 1
     \<lparr>member_keys = [\<lparr>mk_user_id = 2, mk_wrapped_org_key = ''newB''\<rparr>,
                          \<lparr>mk_user_id = 9, mk_wrapped_org_key = ''stale''\<rparr>],
           account_deks = [(AccountId 10, ''newX''), (AccountId 99, ''ghost''),
                           (AccountId 11, ''other'')]\<rparr> userA db0) = Inr \<lparr>kr_accounts_updated = 1, kr_members_updated = 1\<rparr>
   \<and> fst (rotate_organization_keys FaultAtAudit 1
     \<lparr>member_keys = [\<lparr>mk_user_id = 2, mk_wrapped_org_key = ''newB''\<rparr>,
                          \<lparr>mk_user_id = 9, mk_wrapped_org_key = ''stale''\<rparr>],
           account_deks = [(AccountId 10, ''newX''), (AccountId 99, ''ghost''),
                           (AccountId 11, ''other'')]\<rparr> userA db0) = Inl KeyRotationFailed
   \<and> map m_wrapped_org_key (members (snd (rotate_organization_keys FaultAtAudit 1
     \<lparr>member_keys = [\<lparr>mk_user_id = 2, mk_wrapped_org_key = ''newB''\<rparr>,
                          \<lparr>mk_user_id = 9, mk_wrapped_org_key = ''stale''\<rparr>],
           account_deks = [(AccountId 10, ''newX''), (AccountId 99, ''ghost''),
                           (AccountId 11, ''other'')]\<rparr> userA db0))) = [''keyA'', ''newB'', ''keyD'']
   \<and> map acc_encrypted_dek (accounts (snd (rotate_organization_keys FaultAtAudit 1
     \<lparr>member_keys = [\<lparr>mk_user_id = 2, mk_wrapped_org_key = ''newB''\<rparr>,
                          \<lparr>mk_user_id = 9, mk_wrapped_org_key = ''stale''\<rparr>],
           account_deks = [(AccountId 10, ''newX''), (AccountId 99, ''ghost''),
                           (AccountId 11, ''other'')]\<rparr> userA db0))) = [Some ''newX'', Some ''dekY'']
   \<and> rotate_organization_keys NoFault 1
     \<lparr>member_keys = [\<lparr>mk_user_id = 2, mk_wrapped_org_key = ''newB''\<rparr>],
           account_deks = [(AccountId 10, ''newX''), (NotAUuid ''not-a-uuid'', ''ghost'')]\<rparr> userA db0 = (Inl KeyRotationFailed, db0)"
  by (simp add: rotate_organization_keys_def check_org_owner_def check_org_permission_def
        get_active_org_def get_member_def role_insufficient_def role_level_simps
        commit_fails_def log_audit_def is_member_of_def is_org_account_def Let_def example_defs)


section \<open>Audit entries and commits\<close>

lemma create_invitation_audit_fault:
  assumes "fst (create_invitation email_str urandom utc_offset NoFault now oid invitation_data
                  current_user d) = Inr r"
  shows "snd (create_invitation email_str urandom utc_offset FaultAtAudit now oid invitation_data
                current_user d)
           = (snd (create_invitation email_str urandom utc_offset NoFault now oid invitation_data
                     current_user d))
               \<lparr>audit_logs := audit_logs d\<rparr>
       \<and> invitations (snd (create_invitation email_str urandom utc_offset FaultAtAudit now oid
                              invitation_data current_user d))
           = invitations d @ [r]
       \<and> (\<exists>entry. audit_logs
                     (snd (create_invitation email_str urandom utc_offset NoFault now oid
                             invitation_data current_user d))
                   = audit_logs d @ [entry])"
  using assms
  by (auto simp: create_invitation_def commit_fails_def log_audit_def Let_def
        split: sum.splits option.splits if_splits)

lemma transfer_ownership_audit_fault:
  assumes "fst (transfer_ownership NoFault oid new_owner_id current_user d) = Inr r"
  shows "snd (transfer_ownership FaultAtAudit oid new_owner_id current_user d)
           = (snd (transfer_ownership NoFault oid new_owner_id current_user d))
               \<lparr>audit_logs := audit_logs d\<rparr>
       \<and> (\<exists>entry. audit_logs (snd (transfer_ownership NoFault oid new_owner_id current_user d))
                   = audit_logs d @ [entry])"
  using assms
  by (auto simp: transfer_ownership_def commit_fails_def log_audit_def Let_def
        split: sum.splits option.splits if_splits)

lemma update_member_role_audit_fault:
  assumes "fst (update_member_role NoFault oid uid role_data current_user d) = Inr r"
  shows "snd (update_member_role FaultAtAudit oid uid role_data current_user d)
           = (snd (update_member_role NoFault oid uid role_data current_user d))
               \<lparr>audit_logs := audit_logs d\<rparr>
       \<and> (\<exists>entry. audit_logs (snd (update_member_role NoFault oid uid role_data current_user d))
                   = audit_logs d @ [entry])"
  using assms
  by (auto simp: update_member_role_def commit_fails_def log_audit_def Let_def
        split: sum.splits option.splits if_splits)

lemma rotate_audit_fault:
  assumes "fst (rotate_organization_keys NoFault oid rd current_user d) = Inr r"
  shows "snd (rotate_organization_keys FaultAtAudit oid rd current_user d)
           = (snd (rotate_organization_keys NoFault oid rd current_user d))
               \<lparr>audit_logs := audit_logs d\<rparr>
       \<and> (\<exists>entry. audit_logs (snd (rotate_organization_keys NoFault oid rd current_user d))
                   = audit_logs d @ [entry])"
  using assms
  by (auto simp: rotate_organization_keys_def commit_fails_def log_audit_def Let_def
        split: sum.splits option.splits if_splits)

text \<open>
  Claim C5, as the code has it. Invitation creation, key rotation, ownership transfer
  and role change follow one policy: the handler commits its mutation, and only then
  \<^verbatim>\<open>log_audit\<close> adds the audit entry and commits again, outside the mutation's
  transaction. So whenever the request succeeds without a fault, the same request with a
  fault at the audit entry has exactly the same mutation committed, without the audit
  entry: an audit failure does not undo the creation of the invitation, and it does not
  keep the rotation, the transfer or the role change from committing either.
\<close>

theorem audit_after_commit:
  "(fst (create_invitation email_str urandom utc_offset NoFault now oid invitation_data
           current_user d) = Inr created \<longrightarrow>
      snd (create_invitation email_str urandom utc_offset FaultAtAudit now oid invitation_data
             current_user d)
           = (snd (create_invitation email_str urandom utc_offset NoFault now oid invitation_data
                     current_user d))
               \<lparr>audit_logs := audit_logs d\<rparr>
      \<and> invitations (snd (create_invitation email_str urandom utc_offset FaultAtAudit now oid
                             invitation_data current_user d))
           = invitations d @ [created]
      \<and> (\<exists>entry. audit_logs
                     (snd (create_invitation email_str urandom utc_offset NoFault now oid
                             invitation_data current_user d))
                   = audit_logs d @ [entry]))
   \<and> (fst (rotate_organization_keys NoFault oid rd current_user d) = Inr resp \<longrightarrow>
      snd (rotate_organization_keys FaultAtAudit oid rd current_user d)
           = (snd (rotate_organization_keys NoFault oid rd current_user d))
               \<lparr>audit_logs := audit_logs d\<rparr>
      \<and> (\<exists>entry. audit_logs (snd (rotate_organization_keys NoFault oid rd current_user d))
                   = audit_logs d @ [entry]))
   \<and> (fst (transfer_ownership NoFault oid new_owner_id current_user d) = Inr row \<longrightarrow>
      snd (transfer_ownership FaultAtAudit oid new_owner_id current_user d)
           = (snd (transfer_ownership NoFault oid new_owner_id current_user d))
               \<lparr>audit_logs := audit_logs d\<rparr>
      \<and> (\<exists>entry. audit_logs (snd (transfer_ownership NoFault oid new_owner_id current_user d))
                   = audit_logs d @ [entry]))
   \<and> (fst (update_member_role NoFault oid uid role_data current_user d) = Inr changed \<longrightarrow>
      snd (update_member_role FaultAtAudit oid uid role_data current_user d)
           = (snd (update_member_role NoFault oid uid role_data current_user d))
               \<lparr>audit_logs := audit_logs d\<rparr>
      \<and> (\<exists>entry. audit_logs (snd (update_member_role NoFault oid uid role_data current_user d))
                   = audit_logs d @ [entry]))"
  using create_invitation_audit_fault[of email_str urandom utc_offset now oid invitation_data
          current_user d created]
    rotate_audit_fault[of oid rd current_user d resp]
    transfer_ownership_audit_fault[of oid new_owner_id current_user d row]
    update_member_role_audit_fault[of oid uid role_data current_user d changed]
  by blast

theorem audit_after_commit_witness:
  "fst (transfer_ownership NoFault 1 2 userA db0) = Inr (memberB\<lparr>m_role := ''owner''\<rparr>)
   \<and> snd (transfer_ownership FaultAtAudit 1 2 userA db0)
       = (snd (transfer_ownership NoFault 1 2 userA db0))\<lparr>audit_logs := audit_logs db0\<rparr>
   \<and> fst (update_member_role NoFault 1 2 VIEWER userA db0) = Inr (memberB\<lparr>m_role := ''viewer''\<rparr>)
   \<and> snd (update_member_role FaultAtAudit 1 2 VIEWER userA db0)
       = (snd (update_member_role NoFault 1 2 VIEWER userA db0))\<lparr>audit_logs := audit_logs db0\<rparr>"
proof -
  have t: "fst (transfer_ownership NoFault 1 2 userA db0) = Inr (memberB\<lparr>m_role := ''owner''\<rparr>)"
    by (simp add: transfer_ownership_def check_org_owner_def check_org_permission_def
          get_active_org_def get_member_def role_insufficient_def role_level_simps
          commit_fails_def log_audit_def Let_def example_defs)
  have u: "fst (update_member_role NoFault 1 2 VIEWER userA db0)
           = Inr (memberB\<lparr>m_role := ''viewer''\<rparr>)"
    by (simp add: update_member_role_def role_not_owner_def check_org_admin_def
          check_org_permission_def get_active_org_def get_member_def role_insufficient_def
          role_level_simps can_manage_member_def validate_role_transition_def
          commit_fails_def log_audit_def Let_def example_defs)
  note th = audit_after_commit[where d=db0 and oid=1 and current_user=userA]
  note tt = th[where new_owner_id=2 and row="memberB\<lparr>m_role := ''owner''\<rparr>",
      THEN conjunct2, THEN conjunct2, THEN conjunct1, THEN mp, OF t, THEN conjunct1]
  note uu = th[where uid=2 and role_data=VIEWER and changed="memberB\<lparr>m_role := ''viewer''\<rparr>",
      THEN conjunct2, THEN conjunct2, THEN conjunct2, THEN mp, OF u, THEN conjunct1]
  from t u tt uu show ?thesis by blast
qed

text \<open>
  Ownership transfer with a storage fault at the audit entry: the call fails, no audit
  entry exists, and the transfer is committed (A is admin, B is owner).
\<close>

theorem audit_failure_commits_counterexample:
  "fst (transfer_ownership FaultAtAudit 1 2 userA db0) = Inl StorageError
   \<and> map (\<lambda>m. (m_user_id m, m_role m)) (members db0)
       = [(1, ''owner''), (2, ''member''), (4, ''viewer'')]
   \<and> map (\<lambda>m. (m_user_id m, m_role m))
        (members (snd (transfer_ownership FaultAtAudit 1 2 userA db0)))
       = [(1, ''admin''), (2, ''owner''), (4, ''viewer'')]
   \<and> audit_logs (snd (transfer_ownership FaultAtAudit 1 2 userA db0)) = []"
  by (simp add: transfer_ownership_def check_org_owner_def check_org_permission_def
        get_active_org_def get_member_def role_insufficient_def role_level_simps
        commit_fails_def log_audit_def is_member_of_def Let_def example_defs)

end
